theory Spec2Isabelle
  imports Main "HOL-Library.Word"
begin

section \<open>Go strings and the functions of package strings that the parser calls\<close>

text \<open>
  A Go string is modelled by the sequence of code points that ranging over it (or the
  conversion \<^verbatim>\<open>[]rune(s)\<close>) yields; a rune is its code point number. The tree-drawing
  glyphs of the identifier column lie outside Latin-1, so a list of 8-bit characters would
  count them as three positions each, where the source counts one. Text that is not valid
  UTF-8 is outside the model. \<open>str\<close> writes an ASCII literal.
\<close>

type_synonym rune = nat
type_synonym gostring = "rune list"

definition str :: "string \<Rightarrow> gostring" where
  "str s = map of_char s"

text \<open>\<^verbatim>\<open>strings.HasPrefix\<close>, \<^verbatim>\<open>strings.HasSuffix\<close> and \<^verbatim>\<open>strings.Contains\<close>.\<close>

fun HasPrefix :: "gostring \<Rightarrow> gostring \<Rightarrow> bool" where
  "HasPrefix s [] = True"
| "HasPrefix [] (p # ps) = False"
| "HasPrefix (c # cs) (p # ps) = (c = p \<and> HasPrefix cs ps)"

definition HasSuffix :: "gostring \<Rightarrow> gostring \<Rightarrow> bool" where
  "HasSuffix s suffix = HasPrefix (rev s) (rev suffix)"

fun Contains :: "gostring \<Rightarrow> gostring \<Rightarrow> bool" where
  "Contains [] substr = HasPrefix [] substr"
| "Contains (c # cs) substr = (HasPrefix (c # cs) substr \<or> Contains cs substr)"

text \<open>
  \<^verbatim>\<open>strings.ToLower\<close> maps \<^verbatim>\<open>unicode.ToLower\<close> over the runes. \<open>unicode_ToLower\<close> is
  \<^verbatim>\<open>unicode.ToLower\<close> on every rune whose lower case is an ASCII rune: the capitals
  \<open>A..Z\<close>, and the two runes outside ASCII that Go lowers into ASCII, U+0130 (capital I
  with dot above, to \<open>i\<close>) and U+212A (the Kelvin sign, to \<open>k\<close>); an ASCII rune that is
  not a capital is left as it is, as in Go. The case tables of the other scripts are not
  reproduced: where Go lowers a rune to a rune outside ASCII, the model leaves the rune,
  itself outside ASCII, as it is. Every text that the parser looks for in a lowered string
  is ASCII, and its occurrences do not depend on which runes outside ASCII stand around
  them (lemma \<open>Contains_ascii_lowering\<close>).
\<close>

definition unicode_ToLower :: "rune \<Rightarrow> rune" where
  "unicode_ToLower r =
     (if 65 \<le> r \<and> r \<le> 90 then r + 32
      else if r = 304 then 105
      else if r = 8490 then 107
      else r)"

definition ToLower :: "gostring \<Rightarrow> gostring" where
  "ToLower s = map unicode_ToLower s"

text \<open>
  \<^verbatim>\<open>unicode.IsSpace\<close>: the Latin-1 cases \<^verbatim>\<open>'\t', '\n', '\v', '\f', '\r', ' '\<close>, U+0085 and
  U+00A0, and beyond Latin-1 the code points of the Unicode property White_Space.
\<close>

definition IsSpace :: "rune \<Rightarrow> bool" where
  "IsSpace r = ((9 \<le> r \<and> r \<le> 13) \<or> r = 32 \<or> r = 133 \<or> r = 160 \<or> r = 5760
     \<or> (8192 \<le> r \<and> r \<le> 8202) \<or> r = 8232 \<or> r = 8233 \<or> r = 8239 \<or> r = 8287
     \<or> r = 12288)"

text \<open>\<^verbatim>\<open>strings.TrimFunc\<close>, \<^verbatim>\<open>strings.TrimSpace\<close> and \<^verbatim>\<open>strings.TrimSuffix\<close>.\<close>

definition TrimFunc :: "gostring \<Rightarrow> (rune \<Rightarrow> bool) \<Rightarrow> gostring" where
  "TrimFunc s f = rev (dropWhile f (rev (dropWhile f s)))"

definition TrimSpace :: "gostring \<Rightarrow> gostring" where
  "TrimSpace s = TrimFunc s IsSpace"

definition TrimSuffix :: "gostring \<Rightarrow> gostring \<Rightarrow> gostring" where
  "TrimSuffix s suffix =
     (if HasSuffix s suffix then take (length s - length suffix) s else s)"

text \<open>
  \<^verbatim>\<open>strings.Split(s, sep)\<close>. Every call in the source passes a separator of one ASCII
  character (\<^verbatim>\<open>"\n"\<close>, \<^verbatim>\<open>"|"\<close>, \<^verbatim>\<open>","\<close>, \<^verbatim>\<open>":"\<close>), which the model takes as a rune. The
  result has one more element than \<open>s\<close> has separators; the empty string splits into one
  empty field.
\<close>

fun Split :: "gostring \<Rightarrow> rune \<Rightarrow> gostring list" where
  "Split [] sep = [[]]"
| "Split (c # cs) sep =
     (if c = sep then [] # Split cs sep
      else (case Split cs sep of
              [] \<Rightarrow> [[c]]
            | field # fields \<Rightarrow> (c # field) # fields))"

section \<open>The operator taxonomy (plan.go)\<close>

text \<open>The version tags \<^verbatim>\<open>V3\<close>, \<^verbatim>\<open>V4\<close> and \<^verbatim>\<open>VUnknown\<close>.\<close>

definition V3 :: gostring where "V3 = str ''v3''"
definition V4 :: gostring where "V4 = str ''v4''"
definition VUnknown :: gostring where "VUnknown = str ''unknown''"

text \<open>
  Modelled from the spec: the constant \<open>OpTypePointGet\<close>. \<^verbatim>\<open>MatchOpType\<close> returns it, but
  the constant block of plan.go does not declare it; the specification (section 4.5,
  rule 6) names PointGet as a type of its own, so it is a further value of the
  enumeration. The other values of \<^verbatim>\<open>OpType\<close> are those of the \<^verbatim>\<open>iota\<close> block of
  plan.go, in its order.
\<close>

datatype OpType =
    OpTypeUnknown
  | OpTypeHashJoin
  | OpTypeIndexJoin
  | OpTypeMergeJoin
  | OpTypeSelection
  | OpTypeProjection
  | OpTypeTableReader
  | OpTypeTableScan
  | OpTypeIndexReader
  | OpTypeIndexScan
  | OpTypeIndexLookup
  | OpTypePointGet

datatype JoinType =
    JoinTypeUnknown
  | JoinTypeInner
  | JoinTypeLeftOuter
  | JoinTypeRightOuter
  | JoinTypeSemi
  | JoinTypeAntiSemi
  | JoinTypeLeftOuterSemi
  | JoinTypeAntiLeftOuterSemi

datatype TaskType = TaskTypeRoot | TaskTypeTiKV | TaskTypeTiFlash

section \<open>Operator classification (parse.go)\<close>

definition MatchOpType :: "gostring \<Rightarrow> OpType" where
  "MatchOpType opID =
     (let x = ToLower opID in
      if Contains x (str ''join'') then
        (if Contains x (str ''hash'') then OpTypeHashJoin
         else if Contains x (str ''merge'') then OpTypeMergeJoin
         else if Contains x (str ''index'') then OpTypeIndexJoin
         else OpTypeUnknown)
      else if Contains x (str ''table'') then
        (if Contains x (str ''reader'') then OpTypeTableReader
         else if Contains x (str ''scan'') then OpTypeTableScan
         else OpTypeUnknown)
      else if Contains x (str ''index'') then
        (if Contains x (str ''reader'') then OpTypeIndexReader
         else if Contains x (str ''scan'') then OpTypeIndexScan
         else if Contains x (str ''lookup'') then OpTypeIndexLookup
         else OpTypeUnknown)
      else if Contains x (str ''selection'') then OpTypeSelection
      else if Contains x (str ''projection'') then OpTypeProjection
      else if Contains x (str ''point'') then OpTypePointGet
      else OpTypeUnknown)"

definition parseTaskType :: "gostring \<Rightarrow> TaskType" where
  "parseTaskType taskStr =
     (let task = TrimSpace (ToLower taskStr) in
      if task = str ''root'' then TaskTypeRoot
      else if Contains task (str ''tiflash'') then TaskTypeTiFlash
      else TaskTypeTiKV)"

text \<open>
  The priority table of the specification (section 4.5): a family keyword, the sub-rules
  tried in order inside the family, and the type given when no sub-rule applies. The table
  is read top to bottom and the first family whose keyword occurs decides.
\<close>

definition op_families :: "(string \<times> (string \<times> OpType) list \<times> OpType) list" where
  "op_families =
     [(''join'', [(''hash'', OpTypeHashJoin), (''merge'', OpTypeMergeJoin),
                  (''index'', OpTypeIndexJoin)], OpTypeUnknown),
      (''table'', [(''reader'', OpTypeTableReader), (''scan'', OpTypeTableScan)],
                  OpTypeUnknown),
      (''index'', [(''reader'', OpTypeIndexReader), (''scan'', OpTypeIndexScan),
                   (''lookup'', OpTypeIndexLookup)], OpTypeUnknown),
      (''selection'', [], OpTypeSelection),
      (''projection'', [], OpTypeProjection),
      (''point'', [], OpTypePointGet)]"

fun first_rule :: "gostring \<Rightarrow> (string \<times> OpType) list \<Rightarrow> OpType \<Rightarrow> OpType" where
  "first_rule x [] other = other"
| "first_rule x ((kw, t) # rules) other =
     (if Contains x (str kw) then t else first_rule x rules other)"

fun first_family ::
  "gostring \<Rightarrow> (string \<times> (string \<times> OpType) list \<times> OpType) list \<Rightarrow> OpType" where
  "first_family x [] = OpTypeUnknown"
| "first_family x ((kw, rules, other) # families) =
     (if Contains x (str kw) then first_rule x rules other else first_family x families)"

section \<open>Panics, errors and bounds-checked access\<close>

text \<open>
  A run-time panic of the Go program is a value of the model: calling a method on the nil
  interface value, a failed type assertion, an index out of range and a slice expression
  whose bounds are out of range. A function that can panic returns \<open>panic + 'a\<close>.
  An \<^verbatim>\<open>error\<close> value is the message it carries.
\<close>

datatype panic =
    NilDereference
  | TypeAssertionFailed
  | IndexOutOfRange
  | SliceBoundsOutOfRange

datatype error = Errorf gostring

text \<open>\<^verbatim>\<open>xs[i]\<close> for a Go \<^verbatim>\<open>int\<close> index.\<close>

definition index :: "'a list \<Rightarrow> int \<Rightarrow> panic + 'a" where
  "index xs i =
     (if 0 \<le> i \<and> i < int (length xs) then Inr (xs ! nat i) else Inl IndexOutOfRange)"

text \<open>
  \<^verbatim>\<open>xs[lo:hi]\<close>. Go checks \<open>hi\<close> against the capacity; every slice expression of the
  source has \<open>hi \<le> len(xs)\<close> by construction, so the length stands for it here and only
  \<open>lo > hi\<close> can fail.
\<close>

definition slice :: "'a list \<Rightarrow> int \<Rightarrow> int \<Rightarrow> panic + 'a list" where
  "slice xs lo hi =
     (if 0 \<le> lo \<and> lo \<le> hi \<and> hi \<le> int (length xs)
      then Inr (take (nat (hi - lo)) (drop (nat lo) xs))
      else Inl SliceBoundsOutOfRange)"

section \<open>Plans and operators (plan.go)\<close>

text \<open>
  \<^verbatim>\<open>BaseOp\<close> is the shared record; each operator struct embeds it and some add fields.
  An \<^verbatim>\<open>Operator\<close> is an interface value. The model has the nil interface value and the
  values of the eleven struct types of plan.go: a \<^verbatim>\<open>BaseOp\<close> itself (it has all the
  methods) and the ten structs that embed it. The dynamic type is the constructor; the
  field \<open>opType\<close>, which \<^verbatim>\<open>Type()\<close> reads, is independent of it. \<open>estRow\<close> is a
  \<^verbatim>\<open>float64\<close>, kept as its 64 bits: nothing here computes with it.

  Go also lets an \<^verbatim>\<open>Operator\<close> hold a pointer to one of these structs (the pointer types
  have the methods as well), nil or not, and a value of any type declared elsewhere with
  the six methods. Such values are not in the model: every statement about \<open>compare\<close>
  below is about plans whose operators are nil or struct values of plan.go, and the
  statements that exclude a panic are about struct values only.
\<close>

datatype BaseOp =
  BaseOp (opid: gostring) (opType: OpType) (estRow: "64 word") (task: TaskType)
    (children: "Operator list")
and Operator =
    NilOperator
  | BaseOperator BaseOp
  | HashJoinOp BaseOp JoinType
  | IndexJoinOp BaseOp JoinType
  | MergeJoinOp BaseOp JoinType
  | TableReaderOp BaseOp
  | TableScanOp BaseOp gostring
  | IndexReaderOp BaseOp
  | IndexScanOp BaseOp gostring gostring
  | IndexLookupOp BaseOp
  | SelectionOp BaseOp
  | ProjectionOp BaseOp

record Plan =
  SQL :: gostring
  Ver :: gostring
  Root :: Operator

text \<open>The zero value \<^verbatim>\<open>Plan{}\<close>.\<close>

definition Plan_zero :: Plan where
  "Plan_zero = \<lparr>SQL = [], Ver = [], Root = NilOperator\<rparr>"

text \<open>
  The embedded \<^verbatim>\<open>BaseOp\<close> that the promoted methods \<^verbatim>\<open>ID\<close>, \<^verbatim>\<open>Type\<close>, \<^verbatim>\<open>Task\<close> and
  \<^verbatim>\<open>Children\<close> read; the nil interface has none, and a method call on it panics.
\<close>

fun embedded :: "Operator \<Rightarrow> BaseOp option" where
  "embedded NilOperator = None"
| "embedded (BaseOperator b) = Some b"
| "embedded (HashJoinOp b j) = Some b"
| "embedded (IndexJoinOp b j) = Some b"
| "embedded (MergeJoinOp b j) = Some b"
| "embedded (TableReaderOp b) = Some b"
| "embedded (TableScanOp b t) = Some b"
| "embedded (IndexReaderOp b) = Some b"
| "embedded (IndexScanOp b t i) = Some b"
| "embedded (IndexLookupOp b) = Some b"
| "embedded (SelectionOp b) = Some b"
| "embedded (ProjectionOp b) = Some b"

text \<open>The type assertions \<^verbatim>\<open>op.(TableScanOp)\<close> and \<^verbatim>\<open>op.(IndexScanOp)\<close>.\<close>

fun assert_TableScanOp :: "Operator \<Rightarrow> panic + (BaseOp \<times> gostring)" where
  "assert_TableScanOp (TableScanOp b t) = Inr (b, t)"
| "assert_TableScanOp other = Inl TypeAssertionFailed"

fun assert_IndexScanOp :: "Operator \<Rightarrow> panic + (BaseOp \<times> gostring \<times> gostring)" where
  "assert_IndexScanOp (IndexScanOp b t i) = Inr (b, t, i)"
| "assert_IndexScanOp other = Inl TypeAssertionFailed"

section \<open>The comparator (parse.go)\<close>

text \<open>
  The \<^verbatim>\<open>switch\<close> of \<^verbatim>\<open>compare\<close>: it leaves \<open>(reason, same)\<close>, or panics when a type
  assertion fails. \<open>t\<close> is \<^verbatim>\<open>op1.Type()\<close>.
\<close>

definition compare_switch ::
  "OpType \<Rightarrow> Operator \<Rightarrow> Operator \<Rightarrow> panic + (gostring \<times> bool)" where
  "compare_switch t op1 op2 =
     (case t of
        OpTypeTableScan \<Rightarrow>
          (case assert_TableScanOp op1 of
             Inl p \<Rightarrow> Inl p
           | Inr (t1, table1) \<Rightarrow>
               (case assert_TableScanOp op2 of
                  Inl p \<Rightarrow> Inl p
                | Inr (t2, table2) \<Rightarrow>
                    if table1 \<noteq> table2
                    then Inr (opid t1 @ str '':'' @ table1 @ str '', '' @ opid t2 @ str '':''
                              @ table2, False)
                    else Inr ([], True)))
      | OpTypeIndexScan \<Rightarrow>
          (case assert_IndexScanOp op1 of
             Inl p \<Rightarrow> Inl p
           | Inr (t1, table1, index1) \<Rightarrow>
               (case assert_IndexScanOp op2 of
                  Inl p \<Rightarrow> Inl p
                | Inr (t2, table2, index2) \<Rightarrow>
                    if table1 \<noteq> table2 \<or> index1 \<noteq> index2
                    then Inr (opid t1 @ str '':'' @ table1 @ str '', '' @ opid t2 @ str '':''
                              @ table2, False)
                    else Inr ([], True)))
      | _ \<Rightarrow> Inr ([], True))"

text \<open>
  \<^verbatim>\<open>compare\<close>, with its loop over the children as \<open>compare_children\<close> (the index \<open>i\<close>
  of \<^verbatim>\<open>for i := range c1\<close>).
\<close>

function compare :: "Operator \<Rightarrow> Operator \<Rightarrow> panic + (gostring \<times> bool)"
  and compare_children ::
    "Operator list \<Rightarrow> Operator list \<Rightarrow> nat \<Rightarrow> panic + (gostring \<times> bool)" where
  "compare op1 op2 =
     (case embedded op1 of
        None \<Rightarrow> Inl NilDereference
      | Some b1 \<Rightarrow>
          (case embedded op2 of
             None \<Rightarrow> Inl NilDereference
           | Some b2 \<Rightarrow>
               if opType b1 \<noteq> opType b2 \<or> task b1 \<noteq> task b2
               then Inr (opid b1 @ str '' and '' @ opid b2 @ str '' have different types'',
                         False)
               else if length (children b1) \<noteq> length (children b2)
               then Inr (opid b1 @ str '' and '' @ opid b2
                         @ str '' have different children lengths'', False)
               else
                 (case compare_switch (opType b1) op1 op2 of
                    Inl p \<Rightarrow> Inl p
                  | Inr (reason, same) \<Rightarrow>
                      if \<not> same then Inr (reason, False)
                      else compare_children (children b1) (children b2) 0)))"
| "compare_children c1 c2 i =
     (if i < length c1 then
        (if i < length c2 then
           (case compare (c1 ! i) (c2 ! i) of
              Inl p \<Rightarrow> Inl p
            | Inr (reason, same) \<Rightarrow>
                if \<not> same then Inr (reason, same) else compare_children c1 c2 (Suc i))
         else Inl IndexOutOfRange)
      else Inr ([], True))"
  by pat_completeness auto

termination compare
proof (relation
    "(\<lambda>x. case x of Inl (op1, op2) \<Rightarrow> size op1
                    | Inr (c1, c2, i) \<Rightarrow> Suc (size_list size c1))
     <*mlex*> measure (\<lambda>x. case x of Inl _ \<Rightarrow> 0 | Inr (c1, c2, i) \<Rightarrow> length c1 - i)",
    goal_cases)
  case 1
  show ?case by (simp add: wf_mlex)
next
  case (2 op1 op2 b1 b2)
  from \<open>embedded op1 = Some b1\<close> have "Suc (size_list size (children b1)) < size op1"
    by (cases op1; cases b1) auto
  then show ?case by (simp add: mlex_less)
next
  case (3 c1 c2 i)
  then have "size (c1 ! i) < Suc (size_list size c1)"
    using size_list_estimation'[of "c1 ! i" c1 "size (c1 ! i)" size] by simp
  then show ?case by (simp add: mlex_less)
next
  case (4 c1 c2 i)
  then show ?case by (simp add: mlex_leq)
qed

declare compare.simps [simp del] compare_children.simps [simp del]

definition Compare :: "Plan \<Rightarrow> Plan \<Rightarrow> panic + (gostring \<times> bool)" where
  "Compare p1 p2 =
     (if SQL p1 \<noteq> SQL p2 then Inr (str ''differentiate SQLs'', False)
      else compare (Root p1) (Root p2))"

section \<open>Table extraction and dialect detection (parse.go)\<close>

fun isSeparateLine_loop :: "gostring \<Rightarrow> bool" where
  "isSeparateLine_loop [] = True"
| "isSeparateLine_loop (c # cs) =
     (if c \<noteq> 43 \<and> c \<noteq> 45 then False else isSeparateLine_loop cs)"

definition isSeparateLine :: "gostring \<Rightarrow> bool" where
  "isSeparateLine line =
     (let line = TrimSpace line in
      if length line = 0 then False else isSeparateLine_loop line)"

text \<open>
  The loop of \<^verbatim>\<open>trimAndSplitExplainResult\<close>: \<open>i\<close> runs over the lines, \<open>idx\<close> is the
  array of three indices and \<open>p\<close> the number of separator lines seen; the loop is left
  when \<open>p\<close> reaches 3, so \<^verbatim>\<open>idx[p] = i\<close> always writes inside the array.
\<close>

function trimAndSplit_loop ::
  "gostring list \<Rightarrow> nat \<Rightarrow> nat list \<Rightarrow> nat \<Rightarrow> nat list \<times> nat" where
  "trimAndSplit_loop lines i idx p =
     (if i < length lines then
        (if isSeparateLine (lines ! i) then
           (let idx' = idx[p := i]; p' = Suc p in
            if p' = 3 then (idx', p') else trimAndSplit_loop lines (Suc i) idx' p')
         else trimAndSplit_loop lines (Suc i) idx p)
      else (idx, p))"
  by pat_completeness auto
termination
  by (relation "measure (\<lambda>(lines, i, idx, p). length lines - i)") auto

declare trimAndSplit_loop.simps [simp del]

text \<open>
  A Go function that returns \<^verbatim>\<open>(T, error)\<close> returns both values: the pair of the value
  and the error, \<open>None\<close> for a nil error.
\<close>

definition trimAndSplitExplainResult ::
  "gostring \<Rightarrow> panic + (gostring list \<times> error option)" where
  "trimAndSplitExplainResult explainResult =
     (let lines = Split explainResult 10;
          (idx, p) = trimAndSplit_loop lines 0 [0, 0, 0] 0 in
      if p \<noteq> 3 then Inr ([], Some (Errorf (str ''invalid explain result'')))
      else (case slice lines (int (idx ! 0)) (int (idx ! 2) + 1) of
              Inl e \<Rightarrow> Inl e
            | Inr block \<Rightarrow> Inr (block, None)))"

definition matchVersion :: "gostring \<Rightarrow> gostring" where
  "matchVersion version =
     (let v = ToLower version in
      if Contains v (str ''v3'') then V3
      else if Contains v (str ''v4'') then V4
      else VUnknown)"

definition identifyVersion :: "gostring \<Rightarrow> gostring" where
  "identifyVersion header = (if Contains header (str ''estRows'') then V4 else V3)"

fun splitRows_loop :: "gostring list \<Rightarrow> gostring list list \<Rightarrow> panic + gostring list list" where
  "splitRows_loop [] results = Inr results"
| "splitRows_loop (row # rows) results =
     (let cols = Split row 124 in
      case slice cols 1 (int (length cols) - 1) of
        Inl e \<Rightarrow> Inl e
      | Inr cols' \<Rightarrow> splitRows_loop rows (results @ [cols']))"

definition splitRows :: "gostring list \<Rightarrow> panic + gostring list list" where
  "splitRows rows = splitRows_loop rows []"

section \<open>Parsing (parse.go)\<close>

text \<open>
  \<^verbatim>\<open>ParseV3\<close> and \<^verbatim>\<open>ParseV4\<close>, the assemblers of the two dialects, are not among the
  source files. \<open>Parse\<close> and \<open>ParseText\<close> take them as parameters: an assembler receives
  the SQL text and the split rows and returns a plan and an error, or panics.
\<close>

type_synonym assembler = "gostring \<Rightarrow> gostring list list \<Rightarrow> panic + (Plan \<times> error option)"

definition Parse ::
  "assembler \<Rightarrow> assembler \<Rightarrow> gostring \<Rightarrow> gostring \<Rightarrow> gostring list list
     \<Rightarrow> panic + (Plan \<times> error option)" where
  "Parse ParseV3 ParseV4 version sql explainRows =
     (let ver = matchVersion version in
      if ver = VUnknown
      then Inr (Plan_zero, Some (Errorf (str ''unknown version '' @ version)))
      else if ver = V3 then ParseV3 sql explainRows
      else if ver = V4 then ParseV4 sql explainRows
      else Inr (Plan_zero, Some (Errorf (str ''unsupported TiDB version '' @ ver))))"

definition ParseText ::
  "assembler \<Rightarrow> assembler \<Rightarrow> gostring \<Rightarrow> gostring \<Rightarrow> panic + (Plan \<times> error option)" where
  "ParseText ParseV3 ParseV4 sql explainText =
     (case trimAndSplitExplainResult explainText of
        Inl e \<Rightarrow> Inl e
      | Inr (explainLines, Some err) \<Rightarrow> Inr (Plan_zero, Some err)
      | Inr (explainLines, None) \<Rightarrow>
          (let sql = TrimSpace sql;
               sql = TrimSuffix sql (str '';'') in
           case index explainLines 1 of
             Inl e \<Rightarrow> Inl e
           | Inr header \<Rightarrow>
               (let ver = identifyVersion header in
                case slice explainLines 3 (int (length explainLines) - 1) of
                  Inl e \<Rightarrow> Inl e
                | Inr body \<Rightarrow>
                    (case splitRows body of
                       Inl e \<Rightarrow> Inl e
                     | Inr rows \<Rightarrow> Parse ParseV3 ParseV4 ver sql rows))))"

section \<open>The tree builder (parse.go)\<close>

text \<open>
  The first loop of \<^verbatim>\<open>findChildRowNo\<close>, \<^verbatim>\<open>for col = range parent\<close>: \<open>k\<close> is the next index
  of the range, \<open>col\<close> the variable it assigns. The range assigns \<open>col\<close> only at the start
  of an iteration, so a loop that ends without \<^verbatim>\<open>break\<close> leaves the last index in it.
\<close>

function findChildRowNo_col :: "gostring \<Rightarrow> nat \<Rightarrow> nat \<Rightarrow> nat" where
  "findChildRowNo_col parent k col =
     (if k < length parent then
        (let col = k; c = parent ! col in
         if 65 \<le> c \<and> c \<le> 90 then col else findChildRowNo_col parent (Suc k) col)
      else col)"
  by pat_completeness auto
termination
  by (relation "measure (\<lambda>(parent, k, col). length parent - k)") auto

declare findChildRowNo_col.simps [simp del]

text \<open>
  The second loop, over the rows below the parent. The glyphs are U+251C (9500), U+2514
  (9492) and U+2502 (9474).
\<close>

function findChildRowNo_rows ::
  "gostring list list \<Rightarrow> int \<Rightarrow> nat \<Rightarrow> int \<Rightarrow> int list \<Rightarrow> panic + int list" where
  "findChildRowNo_rows rows idColNo col i childRowNo =
     (if i < int (length rows) then
        (case index rows i of
           Inl e \<Rightarrow> Inl e
         | Inr row \<Rightarrow>
             (case index row idColNo of
                Inl e \<Rightarrow> Inl e
              | Inr field \<Rightarrow>
                  (case index field (int col) of
                     Inl e \<Rightarrow> Inl e
                   | Inr c \<Rightarrow>
                       if c = 9500 \<or> c = 9492
                       then findChildRowNo_rows rows idColNo col (i + 1) (childRowNo @ [i])
                       else if c \<noteq> 9474 then Inr childRowNo
                       else findChildRowNo_rows rows idColNo col (i + 1) childRowNo)))
      else Inr childRowNo)"
  by pat_completeness auto
termination
  by (relation "measure (\<lambda>(rows, idColNo, col, i, childRowNo). nat (int (length rows) - i))")
    auto

declare findChildRowNo_rows.simps [simp del]

text \<open>\<^verbatim>\<open>findChildRowNo\<close>; the nil slice it returns for a leaf is the empty list.\<close>

definition findChildRowNo :: "gostring list list \<Rightarrow> int \<Rightarrow> int \<Rightarrow> panic + int list" where
  "findChildRowNo rows parentRowNo idColNo =
     (case index rows parentRowNo of
        Inl e \<Rightarrow> Inl e
      | Inr row \<Rightarrow>
          (case index row idColNo of
             Inl e \<Rightarrow> Inl e
           | Inr parent \<Rightarrow>
               (let col = findChildRowNo_col parent 0 0 in
                if col \<ge> length parent then Inr []
                else findChildRowNo_rows rows idColNo col (parentRowNo + 1) [])))"

definition extractOperatorID :: "gostring \<Rightarrow> gostring" where
  "extractOperatorID field =
     TrimFunc field (\<lambda>c. c = 9492 \<or> c = 9472 \<or> c = 9474 \<or> c = 9500 \<or> c = 32)"

section \<open>Key/value attributes (parse.go)\<close>

fun splitKVs_loop ::
  "gostring list \<Rightarrow> (gostring \<rightharpoonup> gostring) \<Rightarrow> (gostring \<rightharpoonup> gostring)" where
  "splitKVs_loop [] kvMap = kvMap"
| "splitKVs_loop (kv # kvs) kvMap =
     (let fields = Split kv 58 in
      if length fields = 2
      then splitKVs_loop kvs (kvMap(TrimSpace (fields ! 0) \<mapsto> TrimSpace (fields ! 1)))
      else splitKVs_loop kvs kvMap)"

definition splitKVs :: "gostring \<Rightarrow> (gostring \<rightharpoonup> gostring)" where
  "splitKVs kvStr = splitKVs_loop (Split kvStr 44) Map.empty"

text \<open>
  The key/value extraction of the specification (section 4.5): an entry is kept when
  splitting it on \<open>:\<close> gives exactly two parts, as the pair of the trimmed parts, and
  dropped otherwise; \<open>kv_entries\<close> lists the kept entries of a comma-separated string in
  their order.
\<close>

definition kept_entry :: "gostring \<Rightarrow> (gostring \<times> gostring) list" where
  "kept_entry entry =
     (case Split entry 58 of
        [k, v] \<Rightarrow> [(TrimSpace k, TrimSpace v)]
      | _ \<Rightarrow> [])"

definition kv_entries :: "gostring \<Rightarrow> (gostring \<times> gostring) list" where
  "kv_entries kvStr = concat (map kept_entry (Split kvStr 44))"

text \<open>A text with no white space at either end, the empty text included.\<close>

definition no_outer_space :: "gostring \<Rightarrow> bool" where
  "no_outer_space s = (s = [] \<or> (\<not> IsSpace (hd s) \<and> \<not> IsSpace (last s)))"

section \<open>A stand-in assembler\<close>

text \<open>
  Modelled from the spec: an assembler, for the places where \<open>Parse\<close> or \<open>ParseText\<close> is
  evaluated at a concrete input. \<^verbatim>\<open>ParseV3\<close> and \<^verbatim>\<open>ParseV4\<close> are not among the source
  files; \<open>store_assembler\<close> stands in for them there. It puts the SQL text and a version
  tag into the plan, as the specification says of the assemblers (section 4.6: the
  handler consumes the split rows and the normalized SQL text and produces a plan), and
  gives the plan a single operator. The general statements are about all assemblers.
\<close>

definition store_assembler :: "gostring \<Rightarrow> assembler" where
  "store_assembler ver sql rows =
     Inr (\<lparr>SQL = sql, Ver = ver,
           Root = BaseOperator (BaseOp [] OpTypeUnknown 0 TaskTypeRoot [])\<rparr>, None)"

section \<open>The comparison, stated on the trees\<close>

text \<open>
  What the operator methods and fields give, as total functions for stating properties:
  the children, \<^verbatim>\<open>ID()\<close>, \<^verbatim>\<open>Type()\<close> and \<^verbatim>\<open>Task()\<close> of an operator (of the nil
  interface: none, empty, Unknown, Root), the \<^verbatim>\<open>Table\<close> of a \<^verbatim>\<open>TableScanOp\<close> or
  \<^verbatim>\<open>IndexScanOp\<close> and the \<^verbatim>\<open>Index\<close> of an \<^verbatim>\<open>IndexScanOp\<close> (empty on the other
  structs).
\<close>

definition subtrees :: "Operator \<Rightarrow> Operator list" where
  "subtrees op = (case embedded op of None \<Rightarrow> [] | Some b \<Rightarrow> children b)"

definition op_ID :: "Operator \<Rightarrow> gostring" where
  "op_ID op = (case embedded op of None \<Rightarrow> [] | Some b \<Rightarrow> opid b)"

definition op_Type :: "Operator \<Rightarrow> OpType" where
  "op_Type op = (case embedded op of None \<Rightarrow> OpTypeUnknown | Some b \<Rightarrow> opType b)"

definition op_Task :: "Operator \<Rightarrow> TaskType" where
  "op_Task op = (case embedded op of None \<Rightarrow> TaskTypeRoot | Some b \<Rightarrow> task b)"

fun op_Table :: "Operator \<Rightarrow> gostring" where
  "op_Table (TableScanOp b t) = t"
| "op_Table (IndexScanOp b t i) = t"
| "op_Table other = []"

fun op_Index :: "Operator \<Rightarrow> gostring" where
  "op_Index (IndexScanOp b t i) = i"
| "op_Index other = []"

fun is_TableScanOp :: "Operator \<Rightarrow> bool" where
  "is_TableScanOp (TableScanOp b t) = True"
| "is_TableScanOp other = False"

fun is_IndexScanOp :: "Operator \<Rightarrow> bool" where
  "is_IndexScanOp (IndexScanOp b t i) = True"
| "is_IndexScanOp other = False"

text \<open>A property of every node of a tree, the nil children included.\<close>

function all_nodes :: "(Operator \<Rightarrow> bool) \<Rightarrow> Operator \<Rightarrow> bool" where
  "all_nodes P op = (P op \<and> list_all (all_nodes P) (subtrees op))"
  by pat_completeness auto
termination
proof (relation "measure (\<lambda>(P, op). size op)", goal_cases)
  case 1
  show ?case by simp
next
  case (2 P op c)
  then obtain b where b: "embedded op = Some b" and c: "c \<in> set (children b)"
    by (cases "embedded op") (auto simp: subtrees_def)
  from c have "size c \<le> size_list size (children b)"
    using size_list_estimation'[of c "children b" "size c" size] by simp
  moreover from b have "size_list size (children b) < size op"
    by (cases op; cases b) auto
  ultimately show ?case by simp
qed

declare all_nodes.simps [simp del]

text \<open>
  The two conditions on the operators of a plan under which \<open>compare\<close> does not panic.
  \<open>struct_value\<close>: the operator is a value of one of the struct types of plan.go, that
  is, it is not the nil interface value (and, pointers being outside the model, not a
  pointer). \<open>scan_typed\<close> is the agreement of the type tag with the struct that the type
  assertions of \<open>compare\<close> rely on: an operator whose \<^verbatim>\<open>Type()\<close> is \<open>OpTypeTableScan\<close>
  is a \<^verbatim>\<open>TableScanOp\<close>, and one whose \<^verbatim>\<open>Type()\<close> is \<open>OpTypeIndexScan\<close> is an
  \<^verbatim>\<open>IndexScanOp\<close>. A tree is \<open>well_formed\<close> when every operator in it, the root and the
  children at every depth, meets both.
\<close>

definition struct_value :: "Operator \<Rightarrow> bool" where
  "struct_value op = (embedded op \<noteq> None)"

definition scan_typed :: "Operator \<Rightarrow> bool" where
  "scan_typed op =
     (case embedded op of
        None \<Rightarrow> True
      | Some b \<Rightarrow>
          (if opType b = OpTypeTableScan then is_TableScanOp op
           else if opType b = OpTypeIndexScan then is_IndexScanOp op
           else True))"

definition well_formed :: "Operator \<Rightarrow> bool" where
  "well_formed op = (all_nodes struct_value op \<and> all_nodes scan_typed op)"

text \<open>
  The comparison of two trees as section 4.7 of the specification describes it, without
  the reason texts. \<open>differing_field\<close> is the first field in which two nodes taken alone
  differ, in the order of the specification: the type, the task location, the number of
  children, then for a TableScan node the table and for an IndexScan node the table and
  the index. \<open>first_mismatch\<close> walks the two trees in pre-order, the children pairwise by
  position, and gives the first pair of nodes that differ with the field in which they
  do, or \<open>None\<close> when no pair differs.
\<close>

datatype mismatch =
    DifferentOpType
  | DifferentTaskLocation
  | DifferentChildCount
  | DifferentTable
  | DifferentIndex

definition differing_field :: "Operator \<Rightarrow> Operator \<Rightarrow> mismatch option" where
  "differing_field op1 op2 =
     (if op_Type op1 \<noteq> op_Type op2 then Some DifferentOpType
      else if op_Task op1 \<noteq> op_Task op2 then Some DifferentTaskLocation
      else if length (subtrees op1) \<noteq> length (subtrees op2) then Some DifferentChildCount
      else if op_Type op1 = OpTypeTableScan \<and> op_Table op1 \<noteq> op_Table op2
      then Some DifferentTable
      else if op_Type op1 = OpTypeIndexScan \<and> op_Table op1 \<noteq> op_Table op2
      then Some DifferentTable
      else if op_Type op1 = OpTypeIndexScan \<and> op_Index op1 \<noteq> op_Index op2
      then Some DifferentIndex
      else None)"

fun first_Some :: "'a option list \<Rightarrow> 'a option" where
  "first_Some [] = None"
| "first_Some (None # xs) = first_Some xs"
| "first_Some (Some x # xs) = Some x"

function first_mismatch ::
  "Operator \<Rightarrow> Operator \<Rightarrow> (Operator \<times> Operator \<times> mismatch) option" where
  "first_mismatch op1 op2 =
     (case differing_field op1 op2 of
        Some m \<Rightarrow> Some (op1, op2, m)
      | None \<Rightarrow>
          first_Some (map (\<lambda>(c1, c2). first_mismatch c1 c2)
                        (zip (subtrees op1) (subtrees op2))))"
  by pat_completeness auto
termination
proof (relation "measure (\<lambda>(op1, op2). size op1)", goal_cases)
  case 1
  show ?case by simp
next
  case (2 op1 op2 pair c1 c2)
  then have "c1 \<in> set (subtrees op1)" by (auto dest: set_zip_leftD)
  then obtain b where b: "embedded op1 = Some b" and c: "c1 \<in> set (children b)"
    by (cases "embedded op1") (auto simp: subtrees_def)
  from c have "size c1 \<le> size_list size (children b)"
    using size_list_estimation'[of c1 "children b" "size c1" size] by simp
  moreover from b have "size_list size (children b) < size op1"
    by (cases op1; cases b) auto
  ultimately show ?case by simp
qed

declare first_mismatch.simps [simp del]

text \<open>
  The reason that \<open>compare\<close> writes for a pair of nodes and the field in which they
  differ; these are the three format strings of \<open>compare\<close>. A different task location is
  reported with the text of a different type, and a different index with the text of a
  different table, which shows the two tables. \<open>verdict\<close> is the pair that \<^verbatim>\<open>Compare\<close>
  returns for the outcome of the walk.
\<close>

fun reason_of :: "Operator \<times> Operator \<times> mismatch \<Rightarrow> gostring" where
  "reason_of (op1, op2, DifferentOpType) =
     op_ID op1 @ str '' and '' @ op_ID op2 @ str '' have different types''"
| "reason_of (op1, op2, DifferentTaskLocation) =
     op_ID op1 @ str '' and '' @ op_ID op2 @ str '' have different types''"
| "reason_of (op1, op2, DifferentChildCount) =
     op_ID op1 @ str '' and '' @ op_ID op2 @ str '' have different children lengths''"
| "reason_of (op1, op2, DifferentTable) =
     op_ID op1 @ str '':'' @ op_Table op1 @ str '', '' @ op_ID op2 @ str '':'' @ op_Table op2"
| "reason_of (op1, op2, DifferentIndex) =
     op_ID op1 @ str '':'' @ op_Table op1 @ str '', '' @ op_ID op2 @ str '':'' @ op_Table op2"

definition verdict :: "(Operator \<times> Operator \<times> mismatch) option \<Rightarrow> gostring \<times> bool" where
  "verdict found = (case found of None \<Rightarrow> ([], True) | Some m \<Rightarrow> (reason_of m, False))"

text \<open>
  Two trees that are alike: the same shape, the same type and task location at every
  node, the same table on every TableScan node and the same table and index on every
  IndexScan node. The identifiers, the row estimates, the join types and the struct
  types of the operators are left free; nothing is asked of the operators beyond what
  the accessors above give, so two nil operators are alike.
\<close>

definition node_alike :: "Operator \<Rightarrow> Operator \<Rightarrow> bool" where
  "node_alike op1 op2 =
     (op_Type op1 = op_Type op2 \<and> op_Task op1 = op_Task op2
      \<and> length (subtrees op1) = length (subtrees op2)
      \<and> (if op_Type op1 = OpTypeTableScan then op_Table op1 = op_Table op2
          else if op_Type op1 = OpTypeIndexScan
          then op_Table op1 = op_Table op2 \<and> op_Index op1 = op_Index op2
          else True))"

function alike :: "Operator \<Rightarrow> Operator \<Rightarrow> bool" where
  "alike op1 op2 =
     (node_alike op1 op2
      \<and> list_all (\<lambda>(c1, c2). alike c1 c2) (zip (subtrees op1) (subtrees op2)))"
  by pat_completeness auto
termination
proof (relation "measure (\<lambda>(op1, op2). size op1)", goal_cases)
  case 1
  show ?case by simp
next
  case (2 op1 op2 pair c1 c2)
  then have "c1 \<in> set (subtrees op1)" by (auto dest: set_zip_leftD)
  then obtain b where b: "embedded op1 = Some b" and c: "c1 \<in> set (children b)"
    by (cases "embedded op1") (auto simp: subtrees_def)
  from c have "size c1 \<le> size_list size (children b)"
    using size_list_estimation'[of c1 "children b" "size c1" size] by simp
  moreover from b have "size_list size (children b) < size op1"
    by (cases op1; cases b) auto
  ultimately show ?case by simp
qed

declare alike.simps [simp del]

section \<open>Direct children, as the specification words them\<close>

text \<open>
  The rows below a parent, given by the runes at the anchor column of their identifier
  fields and the number of the first of them (section 4.4, step 2): the scan goes on as
  long as the rune is one of U+251C, U+2514 and U+2502, and the rows it passes that have
  U+251C or U+2514 are the direct children, in ascending row number.
\<close>

definition direct_children :: "rune list \<Rightarrow> nat \<Rightarrow> nat list" where
  "direct_children glyphs first =
     map fst (filter (\<lambda>(i, c). c = 9500 \<or> c = 9492)
       (takeWhile (\<lambda>(i, c). c = 9500 \<or> c = 9492 \<or> c = 9474)
          (zip [first ..< first + length glyphs] glyphs)))"

section \<open>Library facts\<close>

lemma HasPrefix_iff: "HasPrefix s p \<longleftrightarrow> (\<exists>post. s = p @ post)"
  by (induction s p rule: HasPrefix.induct) auto

lemma Contains_iff: "Contains s sub \<longleftrightarrow> (\<exists>pre post. s = pre @ sub @ post)"
proof (induction s)
  case Nil
  show ?case by (cases sub) auto
next
  case (Cons c cs)
  show ?case
  proof
    assume "Contains (c # cs) sub"
    then consider "HasPrefix (c # cs) sub" | "Contains cs sub" by auto
    then show "\<exists>pre post. c # cs = pre @ sub @ post"
    proof cases
      case 1
      then obtain post where "c # cs = sub @ post" by (auto simp: HasPrefix_iff)
      then have "c # cs = [] @ sub @ post" by simp
      then show ?thesis by blast
    next
      case 2
      with Cons obtain pre post where "cs = pre @ sub @ post" by blast
      then have "c # cs = (c # pre) @ sub @ post" by simp
      then show ?thesis by blast
    qed
  next
    assume "\<exists>pre post. c # cs = pre @ sub @ post"
    then obtain pre post where eq: "c # cs = pre @ sub @ post" by blast
    show "Contains (c # cs) sub"
    proof (cases pre)
      case Nil
      with eq have "HasPrefix (c # cs) sub" by (auto simp: HasPrefix_iff)
      then show ?thesis by simp
    next
      case (Cons a pre')
      with eq have "cs = pre' @ sub @ post" by simp
      with Cons.IH have "Contains cs sub" by blast
      then show ?thesis by simp
    qed
  qed
qed

lemma TrimFunc_decomp:
  "s = takeWhile f s @ TrimFunc s f @ rev (takeWhile f (rev (dropWhile f s)))"
proof -
  let ?t = "dropWhile f s"
  have "rev (dropWhile f (rev ?t)) @ rev (takeWhile f (rev ?t))
      = rev (takeWhile f (rev ?t) @ dropWhile f (rev ?t))"
    by (simp only: rev_append)
  also have "\<dots> = rev (rev ?t)" by (simp only: takeWhile_dropWhile_id)
  also have "\<dots> = ?t" by simp
  finally have "TrimFunc s f @ rev (takeWhile f (rev ?t)) = ?t"
    by (simp add: TrimFunc_def)
  then have "takeWhile f s @ TrimFunc s f @ rev (takeWhile f (rev ?t)) = takeWhile f s @ ?t"
    by simp
  then show ?thesis by simp
qed

lemma TrimFunc_last: "TrimFunc s f \<noteq> [] \<Longrightarrow> \<not> f (last (TrimFunc s f))"
  by (simp add: TrimFunc_def last_rev hd_dropWhile)

lemma TrimFunc_hd:
  assumes "TrimFunc s f \<noteq> []"
  shows "\<not> f (hd (TrimFunc s f))"
proof -
  let ?t = "dropWhile f s"
  have "?t = TrimFunc s f @ rev (takeWhile f (rev ?t))"
    using TrimFunc_decomp[of s f] by (metis same_append_eq takeWhile_dropWhile_id)
  with assms have "hd ?t = hd (TrimFunc s f)" and "?t \<noteq> []"
    by (metis hd_append2, metis append_is_Nil_conv)
  then show ?thesis using hd_dropWhile[of f s] by simp
qed

lemma no_outer_space_TrimSpace: "no_outer_space (TrimSpace s)"
  using TrimFunc_hd[of s IsSpace] TrimFunc_last[of s IsSpace]
  by (auto simp: no_outer_space_def TrimSpace_def)

lemma TrimSpace_decomp:
  "\<exists>pre post. s = pre @ TrimSpace s @ post \<and> list_all IsSpace pre \<and> list_all IsSpace post"
proof -
  let ?pre = "takeWhile IsSpace s"
  let ?post = "rev (takeWhile IsSpace (rev (dropWhile IsSpace s)))"
  have "s = ?pre @ TrimSpace s @ ?post"
    unfolding TrimSpace_def by (rule TrimFunc_decomp)
  moreover have "list_all IsSpace ?pre" "list_all IsSpace ?post"
    by (auto simp: list_all_iff dest: set_takeWhileD)
  ultimately show ?thesis by blast
qed

text \<open>
  Two ways of lowering runes that agree wherever either of them gives an ASCII rune find
  the same ASCII texts in a string. So the search results in a lowered string are those
  of the model for every case table that lowers the same runes into ASCII.
\<close>

lemma HasPrefix_ascii_lowering:
  assumes "\<And>r. f r < 128 \<or> g r < 128 \<Longrightarrow> f r = g r" and "list_all (\<lambda>c. c < 128) sub"
  shows "HasPrefix (map f s) sub = HasPrefix (map g s) sub"
  using assms(2)
proof (induction s arbitrary: sub)
  case Nil
  show ?case by simp
next
  case (Cons c cs)
  show ?case
  proof (cases sub)
    case Nil
    then show ?thesis by simp
  next
    case (Cons p ps)
    with Cons.prems have p: "p < 128" and ps: "list_all (\<lambda>c. c < 128) ps" by simp_all
    from p assms(1)[of c] have "f c = p \<longleftrightarrow> g c = p" by auto
    with Cons.IH[OF ps] Cons show ?thesis by simp
  qed
qed

lemma Contains_ascii_lowering:
  assumes "\<And>r. f r < 128 \<or> g r < 128 \<Longrightarrow> f r = g r" and "list_all (\<lambda>c. c < 128) sub"
  shows "Contains (map f s) sub = Contains (map g s) sub"
proof (induction s)
  case Nil
  show ?case by simp
next
  case (Cons c cs)
  have "HasPrefix (map f (c # cs)) sub = HasPrefix (map g (c # cs)) sub"
    using assms by (rule HasPrefix_ascii_lowering)
  with Cons show ?case by simp
qed

section \<open>Operator type classification\<close>

text \<open>
  C2. For every identifier, \<open>MatchOpType\<close> gives the type that the priority table gives
  on the lower-cased identifier: the families join, table, index, selection, projection,
  point are tried in this order, the first family whose keyword occurs as a substring
  decides, and only the sub-rules of that family are looked at (join: hash, merge, index;
  table: reader, scan; index: reader, scan, lookup), with Unknown when none applies.
  \<open>IndexHashJoin_7\<close> is a HashJoin, not an IndexJoin, and \<open>Foo_1\<close> is Unknown; the
  other identifiers of the specification's example are classified as it says. The match is
  the case-insensitive one of Go: \<open>INDEXLOOKUP_1\<close> is an IndexLookup, and so is the
  identifier written with the Kelvin sign U+212A in place of its \<open>k\<close>.
\<close>

theorem MatchOpType_priority:
  "MatchOpType opID = first_family (ToLower opID) op_families
   \<and> MatchOpType (str ''IndexHashJoin_7'') = OpTypeHashJoin
   \<and> MatchOpType (str ''IndexHashJoin_7'') \<noteq> OpTypeIndexJoin
   \<and> MatchOpType (str ''Foo_1'') = OpTypeUnknown
   \<and> MatchOpType (str ''IndexJoin_9'') = OpTypeIndexJoin
   \<and> MatchOpType (str ''TableScan_3'') = OpTypeTableScan
   \<and> MatchOpType (str ''IndexReader_2'') = OpTypeIndexReader
   \<and> MatchOpType (str ''Selection_5'') = OpTypeSelection
   \<and> MatchOpType (str ''PointGet_1'') = OpTypePointGet
   \<and> MatchOpType (str ''INDEXLOOKUP_1'') = OpTypeIndexLookup
   \<and> MatchOpType (str ''IndexLoo'' @ [8490] @ str ''up_1'') = OpTypeIndexLookup
   \<and> MatchOpType (str ''Po'' @ [304] @ str ''ntGet_1'') = OpTypePointGet"
proof -
  have table: "MatchOpType opID = first_family (ToLower opID) op_families"
    by (simp add: MatchOpType_def op_families_def Let_def)
  have examples:
    "MatchOpType (str ''IndexHashJoin_7'') = OpTypeHashJoin"
    "MatchOpType (str ''IndexHashJoin_7'') \<noteq> OpTypeIndexJoin"
    "MatchOpType (str ''Foo_1'') = OpTypeUnknown"
    "MatchOpType (str ''IndexJoin_9'') = OpTypeIndexJoin"
    "MatchOpType (str ''TableScan_3'') = OpTypeTableScan"
    "MatchOpType (str ''IndexReader_2'') = OpTypeIndexReader"
    "MatchOpType (str ''Selection_5'') = OpTypeSelection"
    "MatchOpType (str ''PointGet_1'') = OpTypePointGet"
    "MatchOpType (str ''INDEXLOOKUP_1'') = OpTypeIndexLookup"
    "MatchOpType (str ''IndexLoo'' @ [8490] @ str ''up_1'') = OpTypeIndexLookup"
    "MatchOpType (str ''Po'' @ [304] @ str ''ntGet_1'') = OpTypePointGet"
    by (simp_all add: MatchOpType_def Let_def str_def ToLower_def unicode_ToLower_def)
  from table examples show ?thesis by (intro conjI)
qed

section \<open>Key/value attribute extraction\<close>

lemma length_Split: "length (Split s sep) = Suc (count_list s sep)"
  by (induction s) (auto split: list.splits)

lemma kept_entry_alt:
  "kept_entry entry =
     (if length (Split entry 58) = 2
      then [(TrimSpace (Split entry 58 ! 0), TrimSpace (Split entry 58 ! 1))] else [])"
  by (auto simp: kept_entry_def split: list.splits)

lemma splitKVs_loop_map_of:
  "splitKVs_loop kvs m = m ++ map_of (rev (concat (map kept_entry kvs)))"
proof (induction kvs arbitrary: m)
  case Nil
  show ?case by simp
next
  case (Cons kv kvs)
  let ?rest = "map_of (rev (concat (map kept_entry kvs)))"
  show ?case
  proof (cases "length (Split kv 58) = 2")
    case True
    define k where "k = TrimSpace (Split kv 58 ! 0)"
    define v where "v = TrimSpace (Split kv 58 ! 1)"
    from True have kept: "kept_entry kv = [(k, v)]"
      by (simp add: kept_entry_alt k_def v_def)
    from True have "splitKVs_loop (kv # kvs) m = splitKVs_loop kvs (m(k \<mapsto> v))"
      by (simp add: k_def v_def Let_def)
    also have "\<dots> = m(k \<mapsto> v) ++ ?rest" by (rule Cons.IH)
    also have "m(k \<mapsto> v) = m ++ [k \<mapsto> v]" by simp
    also have "(m ++ [k \<mapsto> v]) ++ ?rest = m ++ ([k \<mapsto> v] ++ ?rest)" by simp
    also have "[k \<mapsto> v] ++ ?rest = map_of (rev (concat (map kept_entry (kv # kvs))))"
      by (simp add: kept)
    finally show ?thesis .
  next
    case False
    then have "kept_entry kv = []" by (simp add: kept_entry_alt)
    with False show ?thesis by (simp add: Cons.IH Let_def)
  qed
qed

lemma kv_entries_trimmed:
  "list_all (\<lambda>(k, v). no_outer_space k \<and> no_outer_space v) (kv_entries kvStr)"
  by (auto simp: kv_entries_def list_all_iff kept_entry_alt no_outer_space_TrimSpace
      split: if_splits)

text \<open>
  C9. For every input string, \<open>splitKVs\<close> splits it on \<open>,\<close> and each entry on \<open>:\<close>; an
  entry that does not split into exactly two parts (that is, one that does not hold
  exactly one \<open>:\<close>) is dropped without an error, and each kept entry maps its trimmed key
  to its trimmed value, a later entry replacing an earlier one with the same key. So the
  result is the map of the kept entries read from the last to the first, and its keys are
  the keys of the kept entries. The keys and the values are trimmed of white space: none
  has a white space rune at either end, and a trimmed text is the text it comes from less
  a run of white space before and a run of white space after. For
  \<open>table:t1, range:[1,2]\<close> the key \<open>table\<close> maps to \<open>t1\<close> and the key \<open>range\<close>, which
  follows a space in the input, to \<open>[1\<close>, while the key with its space is not in the map;
  \<open>2]\<close> holds no colon and is dropped. The entry \<open>a:b:c\<close> has two colons, is dropped and
  leaves no trace in the map.
\<close>

theorem splitKVs_kept_entries:
  "splitKVs kvStr = map_of (rev (kv_entries kvStr))
   \<and> dom (splitKVs kvStr) = fst ` set (kv_entries kvStr)
   \<and> (length (Split entry 58) = 2 \<longleftrightarrow> count_list entry 58 = 1)
   \<and> list_all (\<lambda>(k, v). no_outer_space k \<and> no_outer_space v) (kv_entries kvStr)
   \<and> (\<exists>pre post. s = pre @ TrimSpace s @ post \<and> list_all IsSpace pre \<and> list_all IsSpace post)
   \<and> no_outer_space (TrimSpace s)
   \<and> splitKVs (str ''table:t1, range:[1,2]'') (str ''table'') = Some (str ''t1'')
   \<and> splitKVs (str ''table:t1, range:[1,2]'') (str ''range'') = Some (str ''[1'')
   \<and> splitKVs (str ''table:t1, range:[1,2]'') (str '' range'') = None
   \<and> splitKVs (str ''table:t1, range:[1,2]'') = [str ''table'' \<mapsto> str ''t1'', str ''range'' \<mapsto> str ''[1'']
   \<and> splitKVs (str '' index : idx_a  '') = [str ''index'' \<mapsto> str ''idx_a'']
   \<and> kv_entries (str '' a b : c d ,k:v'') = [(str ''a b'', str ''c d''), (str ''k'', str ''v'')]
   \<and> count_list (str ''a:b:c'') 58 = 2
   \<and> kept_entry (str ''a:b:c'') = []
   \<and> splitKVs (str ''a:b:c'') = Map.empty
   \<and> splitKVs (str ''k:v,a:b:c'') = [str ''k'' \<mapsto> str ''v'']"
proof -
  have general: "splitKVs kvStr = map_of (rev (kv_entries kvStr))"
    by (simp add: splitKVs_def kv_entries_def splitKVs_loop_map_of)
  have keys: "dom (splitKVs kvStr) = fst ` set (kv_entries kvStr)"
    by (simp add: general dom_map_of_conv_image_fst)
  have colon: "length (Split entry 58) = 2 \<longleftrightarrow> count_list entry 58 = 1"
    by (simp add: length_Split)
  note trimmed = kv_entries_trimmed[of kvStr]
  note decomp = TrimSpace_decomp[of s]
  note ends = no_outer_space_TrimSpace[of s]
  have table: "splitKVs (str ''table:t1, range:[1,2]'') (str ''table'') = Some (str ''t1'')"
    by (simp add: splitKVs_def str_def TrimSpace_def TrimFunc_def IsSpace_def)
  have range: "splitKVs (str ''table:t1, range:[1,2]'') (str ''range'') = Some (str ''[1'')"
    by (simp add: splitKVs_def str_def TrimSpace_def TrimFunc_def IsSpace_def)
  have space_range: "splitKVs (str ''table:t1, range:[1,2]'') (str '' range'') = None"
    by (simp add: splitKVs_def str_def TrimSpace_def TrimFunc_def IsSpace_def)
  have whole: "splitKVs (str ''table:t1, range:[1,2]'')
      = [str ''table'' \<mapsto> str ''t1'', str ''range'' \<mapsto> str ''[1'']"
    by (simp add: splitKVs_def str_def TrimSpace_def TrimFunc_def IsSpace_def)
  have both_ends: "splitKVs (str '' index : idx_a  '') = [str ''index'' \<mapsto> str ''idx_a'']"
    by (simp add: splitKVs_def str_def TrimSpace_def TrimFunc_def IsSpace_def)
  have inner: "kv_entries (str '' a b : c d ,k:v'')
      = [(str ''a b'', str ''c d''), (str ''k'', str ''v'')]"
    by (simp add: kv_entries_def kept_entry_def str_def TrimSpace_def TrimFunc_def IsSpace_def)
  have abc: "count_list (str ''a:b:c'') 58 = 2" "kept_entry (str ''a:b:c'') = []"
    by (simp_all add: kept_entry_def str_def)
  have dropped: "splitKVs (str ''a:b:c'') = Map.empty"
    by (simp add: splitKVs_def str_def)
  have mixed: "splitKVs (str ''k:v,a:b:c'') = [str ''k'' \<mapsto> str ''v'']"
    by (simp add: splitKVs_def str_def TrimSpace_def TrimFunc_def IsSpace_def)
  from general keys colon trimmed decomp ends table range space_range whole both_ends inner
    abc dropped mixed
  show ?thesis by (intro conjI)
qed

section \<open>Table extraction and row splitting\<close>

lemma trimAndSplit_loop_count:
  "p < 3 \<Longrightarrow> snd (trimAndSplit_loop lines i idx p)
     = min 3 (p + length (filter isSeparateLine (drop i lines)))"
proof (induction lines i idx p rule: trimAndSplit_loop.induct)
  case (1 lines i idx p)
  show ?case
  proof (cases "i < length lines")
    case False
    with "1.prems" show ?thesis by (simp add: trimAndSplit_loop.simps[of lines i])
  next
    case True
    then have d: "drop i lines = lines ! i # drop (Suc i) lines"
      by (simp add: Cons_nth_drop_Suc)
    show ?thesis
    proof (cases "isSeparateLine (lines ! i)")
      case False
      with True 1 show ?thesis by (simp add: trimAndSplit_loop.simps[of lines i] d)
    next
      case sep: True
      show ?thesis
      proof (cases "Suc p = 3")
        case True
        with sep \<open>i < length lines\<close> show ?thesis
          by (simp add: trimAndSplit_loop.simps[of lines i] d Let_def)
      next
        case False
        with sep \<open>i < length lines\<close> 1 show ?thesis
          by (simp add: trimAndSplit_loop.simps[of lines i] d Let_def)
      qed
    qed
  qed
qed

lemma trimAndSplit_loop_skip:
  "\<forall>x \<in> set skipped. \<not> isSeparateLine x \<Longrightarrow>
   trimAndSplit_loop (pre @ skipped @ rest) (length pre) idx p
     = trimAndSplit_loop (pre @ skipped @ rest) (length pre + length skipped) idx p"
proof (induction skipped arbitrary: pre)
  case Nil
  show ?case by simp
next
  case (Cons x xs)
  have "trimAndSplit_loop (pre @ (x # xs) @ rest) (length pre) idx p
      = trimAndSplit_loop (pre @ (x # xs) @ rest) (Suc (length pre)) idx p"
    using Cons.prems by (subst trimAndSplit_loop.simps) (simp add: nth_append)
  also have "\<dots> = trimAndSplit_loop ((pre @ [x]) @ xs @ rest) (length (pre @ [x])) idx p"
    by simp
  also have "\<dots> = trimAndSplit_loop ((pre @ [x]) @ xs @ rest) (length (pre @ [x]) + length xs) idx p"
    using Cons.prems by (intro Cons.IH) simp
  finally show ?case by simp
qed

lemma trimAndSplit_loop_hit:
  "isSeparateLine b \<Longrightarrow>
   trimAndSplit_loop (pre @ b # rest) (length pre) idx p
     = (if Suc p = 3 then (idx[p := length pre], 3)
        else trimAndSplit_loop (pre @ b # rest) (Suc (length pre)) (idx[p := length pre]) (Suc p))"
  by (subst trimAndSplit_loop.simps) (simp add: nth_append Let_def)

lemma trimAndSplit_loop_three:
  assumes "\<forall>x \<in> set pre. \<not> isSeparateLine x" "\<forall>x \<in> set mid1. \<not> isSeparateLine x"
    "\<forall>x \<in> set mid2. \<not> isSeparateLine x"
    "isSeparateLine b1" "isSeparateLine b2" "isSeparateLine b3"
  shows "trimAndSplit_loop (pre @ b1 # mid1 @ b2 # mid2 @ b3 # post) 0 [0, 0, 0] 0
    = ([length pre, Suc (length pre + length mid1),
        Suc (Suc (length pre + length mid1 + length mid2))], 3)"
proof -
  let ?lines = "pre @ b1 # mid1 @ b2 # mid2 @ b3 # post"
  let ?i1 = "length pre"
  let ?i2 = "Suc (length pre + length mid1)"
  let ?i3 = "Suc (Suc (length pre + length mid1 + length mid2))"
  have "trimAndSplit_loop ?lines 0 [0, 0, 0] 0 = trimAndSplit_loop ?lines ?i1 [0, 0, 0] 0"
    using trimAndSplit_loop_skip[of pre "[]" "b1 # mid1 @ b2 # mid2 @ b3 # post" "[0,0,0]" 0] assms(1) by simp
  also have "\<dots> = trimAndSplit_loop ?lines (Suc ?i1) [?i1, 0, 0] (Suc 0)"
    using trimAndSplit_loop_hit[of b1 pre "mid1 @ b2 # mid2 @ b3 # post" "[0,0,0]" 0] assms(4) by simp
  also have "\<dots> = trimAndSplit_loop ?lines ?i2 [?i1, 0, 0] (Suc 0)"
    using trimAndSplit_loop_skip[of mid1 "pre @ [b1]" "b2 # mid2 @ b3 # post" "[?i1,0,0]" "Suc 0"] assms(2) by simp
  also have "\<dots> = trimAndSplit_loop ?lines (Suc ?i2) [?i1, ?i2, 0] (Suc (Suc 0))"
    using trimAndSplit_loop_hit[of b2 "pre @ b1 # mid1" "mid2 @ b3 # post" "[?i1,0,0]" "Suc 0"] assms(5) by simp
  also have "\<dots> = trimAndSplit_loop ?lines ?i3 [?i1, ?i2, 0] (Suc (Suc 0))"
    using trimAndSplit_loop_skip[of mid2 "pre @ b1 # mid1 @ [b2]" "b3 # post" "[?i1, ?i2, 0]" "Suc (Suc 0)"] assms(3)
    by (simp add: add.assoc)
  also have "\<dots> = ([?i1, ?i2, ?i3], 3)"
    using trimAndSplit_loop_hit[of b3 "pre @ b1 # mid1 @ b2 # mid2" "post" "[?i1, ?i2, 0]" "Suc (Suc 0)"] assms(6)
    by (simp add: add.assoc)
  finally show ?thesis .
qed


lemma trimAndSplit_fewer:
  assumes "length (filter isSeparateLine (Split text 10)) < 3"
  shows "trimAndSplitExplainResult text = Inr ([], Some (Errorf (str ''invalid explain result'')))"
proof -
  have "snd (trimAndSplit_loop (Split text 10) 0 [0, 0, 0] 0) \<noteq> 3"
    using assms by (simp add: trimAndSplit_loop_count)
  then show ?thesis
    by (auto simp: trimAndSplitExplainResult_def Let_def split: prod.splits)
qed

lemma trimAndSplit_block:
  assumes "Split text 10 = pre @ b1 # mid1 @ b2 # mid2 @ b3 # post"
    and "\<forall>x \<in> set pre. \<not> isSeparateLine x" "\<forall>x \<in> set mid1. \<not> isSeparateLine x"
    "\<forall>x \<in> set mid2. \<not> isSeparateLine x"
    "isSeparateLine b1" "isSeparateLine b2" "isSeparateLine b3"
  shows "trimAndSplitExplainResult text = Inr (b1 # mid1 @ b2 # mid2 @ [b3], None)"
proof -
  let ?i1 = "length pre"
  let ?i3 = "Suc (Suc (length pre + length mid1 + length mid2))"
  have loop: "trimAndSplit_loop (Split text 10) 0 [0, 0, 0] 0
      = ([?i1, Suc (length pre + length mid1), ?i3], 3)"
    unfolding assms(1) using assms(2-) by (rule trimAndSplit_loop_three)
  have n: "nat (int ?i3 + 1 - int ?i1) = Suc (Suc (Suc (length mid1 + length mid2)))"
    by simp
  have "take (Suc (Suc (Suc (length mid1 + length mid2)))) (b1 # mid1 @ b2 # mid2 @ b3 # post)
      = b1 # mid1 @ b2 # mid2 @ [b3]"
    by simp
  then have "slice (Split text 10) (int ?i1) (int ?i3 + 1) = Inr (b1 # mid1 @ b2 # mid2 @ [b3])"
    unfolding assms(1) slice_def n by simp
  with loop show ?thesis
    by (simp add: trimAndSplitExplainResult_def Let_def)
qed

lemma filter_ge_Suc_split:
  "length (filter P xs) \<ge> Suc n \<Longrightarrow>
   \<exists>pre b rest. xs = pre @ b # rest \<and> (\<forall>x \<in> set pre. \<not> P x) \<and> P b \<and> length (filter P rest) \<ge> n"
proof (induction xs)
  case Nil
  then show ?case by simp
next
  case (Cons x xs)
  show ?case
  proof (cases "P x")
    case True
    with Cons.prems have "x # xs = [] @ x # xs \<and> (\<forall>y \<in> set []. \<not> P y) \<and> P x \<and> length (filter P xs) \<ge> n"
      by simp
    then show ?thesis by blast
  next
    case False
    with Cons obtain pre b rest where "xs = pre @ b # rest" "\<forall>x \<in> set pre. \<not> P x" "P b" "length (filter P rest) \<ge> n"
      by auto
    with False have "x # xs = (x # pre) @ b # rest \<and> (\<forall>y \<in> set (x # pre). \<not> P y) \<and> P b \<and> length (filter P rest) \<ge> n"
      by simp
    then show ?thesis by blast
  qed
qed

lemma three_borders_split:
  assumes "length (filter isSeparateLine lines) \<ge> 3"
  shows "\<exists>pre b1 mid1 b2 mid2 b3 post. lines = pre @ b1 # mid1 @ b2 # mid2 @ b3 # post
     \<and> (\<forall>x \<in> set pre. \<not> isSeparateLine x) \<and> (\<forall>x \<in> set mid1. \<not> isSeparateLine x)
     \<and> (\<forall>x \<in> set mid2. \<not> isSeparateLine x)
     \<and> isSeparateLine b1 \<and> isSeparateLine b2 \<and> isSeparateLine b3"
proof -
  from assms have "length (filter isSeparateLine lines) \<ge> Suc 2" by simp
  from filter_ge_Suc_split[OF this] obtain pre b1 r1 where
    1: "lines = pre @ b1 # r1" "\<forall>x \<in> set pre. \<not> isSeparateLine x" "isSeparateLine b1"
      "length (filter isSeparateLine r1) \<ge> Suc 1" by auto
  from filter_ge_Suc_split[OF 1(4)] obtain mid1 b2 r2 where
    2: "r1 = mid1 @ b2 # r2" "\<forall>x \<in> set mid1. \<not> isSeparateLine x" "isSeparateLine b2"
      "length (filter isSeparateLine r2) \<ge> Suc 0" by auto
  from filter_ge_Suc_split[OF 2(4)] obtain mid2 b3 post where
    3: "r2 = mid2 @ b3 # post" "\<forall>x \<in> set mid2. \<not> isSeparateLine x" "isSeparateLine b3"
    by auto
  from 1 2 3 show ?thesis by blast
qed

lemma slice_butlast_tl:
  "slice cols 1 (int (length cols) - 1) =
     (if length cols \<ge> 2 then Inr (butlast (tl cols)) else Inl SliceBoundsOutOfRange)"
proof (cases cols)
  case Nil
  then show ?thesis by (simp add: slice_def)
next
  case (Cons c cs)
  have "nat (int (length cs) - 1) = length cs - Suc 0" by linarith
  then show ?thesis
    using Cons by (auto simp: slice_def butlast_conv_take)
qed

lemma Split_two_iff: "2 \<le> length (Split row sep) \<longleftrightarrow> sep \<in> set row"
  using count_list_0_iff[of row sep] by (auto simp: length_Split)

lemma splitRows_loop_ok:
  "\<forall>row \<in> set rows. 124 \<in> set row \<Longrightarrow>
   splitRows_loop rows acc = Inr (acc @ map (\<lambda>row. butlast (tl (Split row 124))) rows)"
  by (induction rows arbitrary: acc) (simp_all add: Let_def slice_butlast_tl Split_two_iff)

lemma splitRows_loop_panic:
  "\<exists>row \<in> set rows. 124 \<notin> set row \<Longrightarrow> splitRows_loop rows acc = Inl SliceBoundsOutOfRange"
  by (induction rows arbitrary: acc) (auto simp: Let_def slice_butlast_tl Split_two_iff)

lemma splitRows_ok:
  "\<forall>row \<in> set rows. 124 \<in> set row \<Longrightarrow>
   splitRows rows = Inr (map (\<lambda>row. butlast (tl (Split row 124))) rows)"
  by (simp add: splitRows_def splitRows_loop_ok)

lemma splitRows_panic:
  "\<exists>row \<in> set rows. 124 \<notin> set row \<Longrightarrow> splitRows rows = Inl SliceBoundsOutOfRange"
  by (simp add: splitRows_def splitRows_loop_panic)

lemma version_tags: "V3 \<noteq> V4" "V3 \<noteq> VUnknown" "V4 \<noteq> VUnknown"
  by (simp_all add: V3_def V4_def VUnknown_def str_def)

lemma matchVersion_tags: "matchVersion V3 = V3" "matchVersion V4 = V4"
  by (simp_all add: matchVersion_def V3_def V4_def str_def ToLower_def unicode_ToLower_def)

lemma Parse_identifyVersion:
  "Parse pv3 pv4 (identifyVersion header) sql rows =
     (if Contains header (str ''estRows'') then pv4 sql rows else pv3 sql rows)"
  using version_tags by (auto simp: Parse_def identifyVersion_def matchVersion_tags Let_def)

lemma trimAndSplit_cases:
  obtains (fewer) "length (filter isSeparateLine (Split text 10)) < 3"
      "trimAndSplitExplainResult text = Inr ([], Some (Errorf (str ''invalid explain result'')))"
  | (block) pre b1 mid1 b2 mid2 b3 post where
      "Split text 10 = pre @ b1 # mid1 @ b2 # mid2 @ b3 # post"
      "\<forall>x \<in> set pre. \<not> isSeparateLine x" "\<forall>x \<in> set mid1. \<not> isSeparateLine x"
      "\<forall>x \<in> set mid2. \<not> isSeparateLine x"
      "isSeparateLine b1" "isSeparateLine b2" "isSeparateLine b3"
      "trimAndSplitExplainResult text = Inr (b1 # mid1 @ b2 # mid2 @ [b3], None)"
proof (cases "length (filter isSeparateLine (Split text 10)) < 3")
  case True
  then show ?thesis using fewer trimAndSplit_fewer by blast
next
  case False
  then have "length (filter isSeparateLine (Split text 10)) \<ge> 3" by simp
  from three_borders_split[OF this] obtain pre b1 mid1 b2 mid2 b3 post where
    d: "Split text 10 = pre @ b1 # mid1 @ b2 # mid2 @ b3 # post"
      "\<forall>x \<in> set pre. \<not> isSeparateLine x" "\<forall>x \<in> set mid1. \<not> isSeparateLine x"
      "\<forall>x \<in> set mid2. \<not> isSeparateLine x"
      "isSeparateLine b1" "isSeparateLine b2" "isSeparateLine b3"
    by blast
  from trimAndSplit_block[OF d] d show ?thesis using block by blast
qed

lemma ParseText_table:
  assumes "Split text 10 = pre @ b1 # header # b2 # body @ b3 # post"
    and "\<forall>x \<in> set pre. \<not> isSeparateLine x" "\<not> isSeparateLine header"
    "\<forall>x \<in> set body. \<not> isSeparateLine x"
    "isSeparateLine b1" "isSeparateLine b2" "isSeparateLine b3"
  shows "ParseText pv3 pv4 sql text =
     (case splitRows body of
        Inl e \<Rightarrow> Inl e
      | Inr rows \<Rightarrow> Parse pv3 pv4 (identifyVersion header)
                     (TrimSuffix (TrimSpace sql) (str '';'')) rows)"
proof -
  have "trimAndSplitExplainResult text = Inr (b1 # [header] @ b2 # body @ [b3], None)"
    using assms by (intro trimAndSplit_block[where pre = pre and post = post]) simp_all
  moreover have "slice (b1 # header # b2 # body @ [b3]) 3 (int (length (b1 # header # b2 # body @ [b3])) - 1)
      = Inr body"
    by (simp add: slice_def numeral_3_eq_3)
  ultimately show ?thesis
    by (simp add: ParseText_def index_def Let_def)
qed

lemma ParseText_adjacent_borders:
  assumes "Split text 10 = pre @ b1 # b2 # b3 # post"
    and "\<forall>x \<in> set pre. \<not> isSeparateLine x"
    "isSeparateLine b1" "isSeparateLine b2" "isSeparateLine b3"
  shows "ParseText pv3 pv4 sql text = Inl SliceBoundsOutOfRange"
proof -
  have "trimAndSplitExplainResult text = Inr (b1 # [] @ b2 # [] @ [b3], None)"
    using assms by (intro trimAndSplit_block[where pre = pre and post = post]) simp_all
  then show ?thesis
    by (simp add: ParseText_def index_def slice_def Let_def)
qed

section \<open>Extraction of the bordered block\<close>

lemma isSeparateLine_examples:
  "isSeparateLine (str ''+-+'')" "\<not> isSeparateLine (str ''|id|'')"
  "\<not> isSeparateLine (str ''|a|'')" "\<not> isSeparateLine (str ''|b|'')"
  "\<not> isSeparateLine (str ''plan'')" "\<not> isSeparateLine (str ''ab'')"
  "\<not> isSeparateLine (str '''')"
  by (simp_all add: isSeparateLine_def TrimSpace_def TrimFunc_def IsSpace_def str_def)

text \<open>
  C4 (amended). \<open>trimAndSplitExplainResult\<close> splits the text into lines and looks for the
  first three separator lines, a separator line being one whose trimmed content is not
  empty and holds only \<open>+\<close> and \<open>-\<close>. With fewer than three it fails with the error
  \<open>invalid explain result\<close>; otherwise it returns the lines from the first separator
  line through the third, both included. When exactly one line, the header, stands
  between the first and the second separator line, and each of the \<open>N\<close> lines between
  the second and the third holds a \<open>|\<close>, the row extraction of \<open>ParseText\<close> gives
  exactly \<open>N\<close> rows to \<open>Parse\<close>, and \<open>N\<close> is the number of extracted lines minus 4.
\<close>

theorem trimAndSplitExplainResult_rows:
  "(length (filter isSeparateLine (Split text 10)) < 3 \<longrightarrow>
      trimAndSplitExplainResult text
        = Inr ([], Some (Errorf (str ''invalid explain result''))))
   \<and> (Split text 10 = pre @ b1 # mid1 @ b2 # mid2 @ b3 # post
        \<and> (\<forall>x \<in> set pre. \<not> isSeparateLine x) \<and> (\<forall>x \<in> set mid1. \<not> isSeparateLine x)
        \<and> (\<forall>x \<in> set mid2. \<not> isSeparateLine x)
        \<and> isSeparateLine b1 \<and> isSeparateLine b2 \<and> isSeparateLine b3 \<longrightarrow>
      trimAndSplitExplainResult text = Inr (b1 # mid1 @ b2 # mid2 @ [b3], None))
   \<and> (Split text 10 = pre @ b1 # header # b2 # body @ b3 # post
        \<and> (\<forall>x \<in> set pre. \<not> isSeparateLine x) \<and> \<not> isSeparateLine header
        \<and> (\<forall>x \<in> set body. \<not> isSeparateLine x)
        \<and> isSeparateLine b1 \<and> isSeparateLine b2 \<and> isSeparateLine b3
        \<and> (\<forall>row \<in> set body. 124 \<in> set row) \<longrightarrow>
      (\<exists>block rows.
         trimAndSplitExplainResult text = Inr (block, None)
         \<and> splitRows body = Inr rows
         \<and> length rows = length body
         \<and> int (length rows) = int (length block) - 4
         \<and> ParseText ParseV3 ParseV4 sql text
             = Parse ParseV3 ParseV4 (identifyVersion header)
                 (TrimSuffix (TrimSpace sql) (str '';'')) rows))"
proof (intro conjI impI)
  assume "length (filter isSeparateLine (Split text 10)) < 3"
  then show "trimAndSplitExplainResult text
      = Inr ([], Some (Errorf (str ''invalid explain result'')))"
    by (rule trimAndSplit_fewer)
next
  assume "Split text 10 = pre @ b1 # mid1 @ b2 # mid2 @ b3 # post
        \<and> (\<forall>x \<in> set pre. \<not> isSeparateLine x) \<and> (\<forall>x \<in> set mid1. \<not> isSeparateLine x)
        \<and> (\<forall>x \<in> set mid2. \<not> isSeparateLine x)
        \<and> isSeparateLine b1 \<and> isSeparateLine b2 \<and> isSeparateLine b3"
  then show "trimAndSplitExplainResult text = Inr (b1 # mid1 @ b2 # mid2 @ [b3], None)"
    by (intro trimAndSplit_block[where pre = pre and post = post]) simp_all
next
  assume a: "Split text 10 = pre @ b1 # header # b2 # body @ b3 # post
        \<and> (\<forall>x \<in> set pre. \<not> isSeparateLine x) \<and> \<not> isSeparateLine header
        \<and> (\<forall>x \<in> set body. \<not> isSeparateLine x)
        \<and> isSeparateLine b1 \<and> isSeparateLine b2 \<and> isSeparateLine b3
        \<and> (\<forall>row \<in> set body. 124 \<in> set row)"
  let ?block = "b1 # header # b2 # body @ [b3]"
  let ?rows = "map (\<lambda>row. butlast (tl (Split row 124))) body"
  have "trimAndSplitExplainResult text = Inr (b1 # [header] @ b2 # body @ [b3], None)"
    using a by (intro trimAndSplit_block[where pre = pre and post = post]) auto
  then have 1: "trimAndSplitExplainResult text = Inr (?block, None)" by simp
  have 2: "splitRows body = Inr ?rows" using a by (simp add: splitRows_ok)
  have 3: "ParseText ParseV3 ParseV4 sql text
      = Parse ParseV3 ParseV4 (identifyVersion header)
          (TrimSuffix (TrimSpace sql) (str '';'')) ?rows"
    using a by (subst ParseText_table[where pre = pre and post = post and body = body]) (auto simp: 2)
  have 4: "int (length ?rows) = int (length ?block) - 4" by simp
  from 1 2 3 4 show "\<exists>block rows.
         trimAndSplitExplainResult text = Inr (block, None)
         \<and> splitRows body = Inr rows
         \<and> length rows = length body
         \<and> int (length rows) = int (length block) - 4
         \<and> ParseText ParseV3 ParseV4 sql text
             = Parse ParseV3 ParseV4 (identifyVersion header)
                 (TrimSuffix (TrimSpace sql) (str '';'')) rows"
    by (intro exI[of _ ?block] exI[of _ ?rows]) simp
qed

theorem trimAndSplitExplainResult_rows_witness:
  "trimAndSplitExplainResult (str ''+-+\<newline>|id|'')
     = Inr ([], Some (Errorf (str ''invalid explain result'')))
   \<and> trimAndSplitExplainResult (str ''plan\<newline>+-+\<newline>|id|\<newline>+-+\<newline>|a|\<newline>|b|\<newline>+-+\<newline>'')
     = Inr ([str ''+-+'', str ''|id|'', str ''+-+'', str ''|a|'', str ''|b|'', str ''+-+''], None)
   \<and> (\<exists>rows. splitRows [str ''|a|'', str ''|b|''] = Inr rows \<and> length rows = 2
        \<and> ParseText (store_assembler V3) (store_assembler V4) (str ''select 1'')
             (str ''plan\<newline>+-+\<newline>|id|\<newline>+-+\<newline>|a|\<newline>|b|\<newline>+-+\<newline>'')
           = Parse (store_assembler V3) (store_assembler V4) (identifyVersion (str ''|id|''))
               (TrimSuffix (TrimSpace (str ''select 1'')) (str '';'')) rows)"
proof -
  let ?short = "str ''+-+\<newline>|id|''"
  let ?text = "str ''plan\<newline>+-+\<newline>|id|\<newline>+-+\<newline>|a|\<newline>|b|\<newline>+-+\<newline>''"
  have split_short: "Split ?short 10 = [str ''+-+'', str ''|id|'']"
    by (simp add: str_def)
  have split_text: "Split ?text 10
      = [str ''plan''] @ str ''+-+'' # [str ''|id|''] @ str ''+-+'' # [str ''|a|'', str ''|b|'']
          @ str ''+-+'' # [str '''']"
    by (simp add: str_def)
  have h1: "length (filter isSeparateLine (Split ?short 10)) < 3"
    by (simp add: split_short)
  have h2: "Split ?text 10
      = [str ''plan''] @ str ''+-+'' # [str ''|id|''] @ str ''+-+'' # [str ''|a|'', str ''|b|'']
          @ str ''+-+'' # [str '''']
      \<and> (\<forall>x \<in> set [str ''plan'']. \<not> isSeparateLine x)
      \<and> (\<forall>x \<in> set [str ''|id|'']. \<not> isSeparateLine x)
      \<and> (\<forall>x \<in> set [str ''|a|'', str ''|b|'']. \<not> isSeparateLine x)
      \<and> isSeparateLine (str ''+-+'') \<and> isSeparateLine (str ''+-+'') \<and> isSeparateLine (str ''+-+'')"
    using split_text by (simp add: isSeparateLine_examples)
  have h3: "Split ?text 10
      = [str ''plan''] @ str ''+-+'' # str ''|id|'' # str ''+-+'' # [str ''|a|'', str ''|b|'']
          @ str ''+-+'' # [str '''']
      \<and> (\<forall>x \<in> set [str ''plan'']. \<not> isSeparateLine x) \<and> \<not> isSeparateLine (str ''|id|'')
      \<and> (\<forall>x \<in> set [str ''|a|'', str ''|b|'']. \<not> isSeparateLine x)
      \<and> isSeparateLine (str ''+-+'') \<and> isSeparateLine (str ''+-+'') \<and> isSeparateLine (str ''+-+'')
      \<and> (\<forall>row \<in> set [str ''|a|'', str ''|b|'']. 124 \<in> set row)"
    using split_text by (simp add: isSeparateLine_examples) (simp add: str_def)
  note thm1 = trimAndSplitExplainResult_rows[of ?short]
  note thm2 = trimAndSplitExplainResult_rows[of ?text "[str ''plan'']" "str ''+-+''"
      "[str ''|id|'']" "str ''+-+''" "[str ''|a|'', str ''|b|'']" "str ''+-+''" "[str '''']"
      "str ''|id|''" "[str ''|a|'', str ''|b|'']" "store_assembler V3" "store_assembler V4"
      "str ''select 1''"]
  from thm1 h1 have c1: "trimAndSplitExplainResult ?short
      = Inr ([], Some (Errorf (str ''invalid explain result'')))"
    by blast
  from thm2 h2 have c2: "trimAndSplitExplainResult ?text
      = Inr (str ''+-+'' # [str ''|id|''] @ str ''+-+'' # [str ''|a|'', str ''|b|''] @ [str ''+-+''], None)"
    by blast
  from thm2 h3 obtain block rows where c3:
    "splitRows [str ''|a|'', str ''|b|''] = Inr rows"
    "length rows = length [str ''|a|'', str ''|b|'']"
    "ParseText (store_assembler V3) (store_assembler V4) (str ''select 1'') ?text
       = Parse (store_assembler V3) (store_assembler V4) (identifyVersion (str ''|id|''))
           (TrimSuffix (TrimSpace (str ''select 1'')) (str '';'')) rows"
    by blast
  from c1 c2 c3 show ?thesis by auto
qed

lemma Split_examples:
  "Split (str ''+-+\<newline>+-+\<newline>+-+'') 10 = [str ''+-+'', str ''+-+'', str ''+-+'']"
  "Split (str ''+-+\<newline>+-+\<newline>|a|\<newline>+-+'') 10 = [str ''+-+'', str ''+-+'', str ''|a|'', str ''+-+'']"
  "Split (str ''+-+\<newline>|id|\<newline>+-+\<newline>ab\<newline>+-+'') 10
     = [str ''+-+'', str ''|id|'', str ''+-+'', str ''ab'', str ''+-+'']"
  "Split (str ''+-+\<newline>|id|\<newline>+-+\<newline>|a|\<newline>+-+'') 10
     = [str ''+-+'', str ''|id|'', str ''+-+'', str ''|a|'', str ''+-+'']"
  "Split (str ''+-+\<newline>|id|estRows|\<newline>+-+\<newline>|a|\<newline>+-+'') 10
     = [str ''+-+'', str ''|id|estRows|'', str ''+-+'', str ''|a|'', str ''+-+'']"
  "Split (str ''+-+\<newline>|id|'') 10 = [str ''+-+'', str ''|id|'']"
  by (simp_all add: str_def)

lemma splitRows_examples:
  "splitRows [str ''|a|''] = Inr [[str ''a'']]"
  "splitRows [str ''|a|'', str ''|b|''] = Inr [[str ''a''], [str ''b'']]"
  by (simp_all add: splitRows_def str_def slice_def)

lemma Contains_examples:
  "\<not> Contains (str ''|id|'') (str ''estRows'')"
  "Contains (str ''|id|estRows|'') (str ''estRows'')"
  "\<not> Contains (str ''|id|estrows|'') (str ''estRows'')"
  by (simp_all add: str_def)

text \<open>
  The claim as first stated, for any input with exactly three separator lines, fails: with
  the three separator lines alone the extracted block has three lines, not \<open>N + 4\<close>, and
  the row extraction panics; with no header line between the first two separator lines,
  the one line between the second and the third is not among the rows, of which there
  are none.
\<close>

theorem three_separators_counterexample:
  "length (filter isSeparateLine (Split (str ''+-+\<newline>+-+\<newline>+-+'') 10)) = 3
   \<and> trimAndSplitExplainResult (str ''+-+\<newline>+-+\<newline>+-+'')
       = Inr ([str ''+-+'', str ''+-+'', str ''+-+''], None)
   \<and> ParseText (store_assembler V3) (store_assembler V4) (str ''select 1'')
        (str ''+-+\<newline>+-+\<newline>+-+'') = Inl SliceBoundsOutOfRange
   \<and> length (filter isSeparateLine (Split (str ''+-+\<newline>+-+\<newline>|a|\<newline>+-+'') 10)) = 3
   \<and> trimAndSplitExplainResult (str ''+-+\<newline>+-+\<newline>|a|\<newline>+-+'')
       = Inr ([str ''+-+'', str ''+-+'', str ''|a|'', str ''+-+''], None)
   \<and> slice [str ''+-+'', str ''+-+'', str ''|a|'', str ''+-+''] 3
         (int (length [str ''+-+'', str ''+-+'', str ''|a|'', str ''+-+'']) - 1) = Inr []"
proof -
  let ?t1 = "str ''+-+\<newline>+-+\<newline>+-+''"
  let ?t2 = "str ''+-+\<newline>+-+\<newline>|a|\<newline>+-+''"
  have 1: "length (filter isSeparateLine (Split ?t1 10)) = 3"
    by (simp add: Split_examples isSeparateLine_examples)
  have 2: "trimAndSplitExplainResult ?t1 = Inr ([str ''+-+'', str ''+-+'', str ''+-+''], None)"
    using trimAndSplit_block[of ?t1 "[]" "str ''+-+''" "[]" "str ''+-+''" "[]" "str ''+-+''" "[]"]
    by (simp add: Split_examples isSeparateLine_examples)
  have 3: "ParseText (store_assembler V3) (store_assembler V4) (str ''select 1'') ?t1
      = Inl SliceBoundsOutOfRange"
    using ParseText_adjacent_borders[of ?t1 "[]" "str ''+-+''" "str ''+-+''" "str ''+-+''" "[]"]
    by (simp add: Split_examples isSeparateLine_examples)
  have 4: "length (filter isSeparateLine (Split ?t2 10)) = 3"
    by (simp add: Split_examples isSeparateLine_examples)
  have 5: "trimAndSplitExplainResult ?t2
      = Inr ([str ''+-+'', str ''+-+'', str ''|a|'', str ''+-+''], None)"
    using trimAndSplit_block[of ?t2 "[]" "str ''+-+''" "[]" "str ''+-+''" "[str ''|a|'']" "str ''+-+''" "[]"]
    by (simp add: Split_examples isSeparateLine_examples)
  have 6: "slice [str ''+-+'', str ''+-+'', str ''|a|'', str ''+-+''] 3
         (int (length [str ''+-+'', str ''+-+'', str ''|a|'', str ''+-+'']) - 1) = Inr []"
    by (simp add: slice_def)
  from 1 2 3 4 5 6 show ?thesis by blast
qed

section \<open>Corrupt input\<close>

lemma ParseText_fewer:
  assumes "length (filter isSeparateLine (Split text 10)) < 3"
  shows "ParseText pv3 pv4 sql text
    = Inr (Plan_zero, Some (Errorf (str ''invalid explain result'')))"
  by (simp add: ParseText_def trimAndSplit_fewer[OF assms])

lemma trimAndSplit_no_panic: "trimAndSplitExplainResult text \<noteq> Inl e"
  by (rule trimAndSplit_cases[of "text"]) simp_all

lemma trimAndSplit_error_empty:
  "trimAndSplitExplainResult text = Inr (block, Some err) \<Longrightarrow> block = []"
  by (rule trimAndSplit_cases[of "text"]) simp_all

lemma Parse_error_plan:
  assumes "\<forall>s rows p e. pv3 s rows = Inr (p, Some e) \<longrightarrow> p = Plan_zero"
    and "\<forall>s rows p e. pv4 s rows = Inr (p, Some e) \<longrightarrow> p = Plan_zero"
    and "Parse pv3 pv4 version sql rows = Inr (p, Some err)"
  shows "p = Plan_zero"
proof -
  from assms(3) consider "p = Plan_zero" | "pv3 sql rows = Inr (p, Some err)"
    | "pv4 sql rows = Inr (p, Some err)"
    by (auto simp: Parse_def Let_def split: if_splits)
  then show ?thesis using assms(1,2) by cases blast+
qed

lemma ParseText_error_plan:
  assumes "\<forall>s rows p e. pv3 s rows = Inr (p, Some e) \<longrightarrow> p = Plan_zero"
    and "\<forall>s rows p e. pv4 s rows = Inr (p, Some e) \<longrightarrow> p = Plan_zero"
    and "ParseText pv3 pv4 sql text = Inr (p, Some err)"
  shows "p = Plan_zero"
  using assms(3) Parse_error_plan[OF assms(1,2)]
  by (auto simp: ParseText_def Let_def split: sum.splits prod.splits option.splits)

text \<open>
  C7 (amended). With fewer than three separator lines \<open>ParseText\<close> does not panic and
  returns the error \<open>invalid explain result\<close> together with the empty plan. It makes no
  other check of the block: when the three separator lines follow each other with nothing
  between them, or when, in a block with a header line, a body line holds no \<open>|\<close>, it
  panics on a slice expression whose bounds are out of range, and returns no error.
  Whenever \<open>ParseText\<close> returns an error the plan beside it is the empty plan, as long
  as the assemblers return the empty plan with their own errors.
\<close>

theorem ParseText_corrupt_block:
  "(length (filter isSeparateLine (Split text 10)) < 3 \<longrightarrow>
      ParseText ParseV3 ParseV4 sql text
        = Inr (Plan_zero, Some (Errorf (str ''invalid explain result''))))
   \<and> (Split text 10 = pre @ b1 # b2 # b3 # post
        \<and> (\<forall>x \<in> set pre. \<not> isSeparateLine x)
        \<and> isSeparateLine b1 \<and> isSeparateLine b2 \<and> isSeparateLine b3 \<longrightarrow>
      ParseText ParseV3 ParseV4 sql text = Inl SliceBoundsOutOfRange)
   \<and> (Split text 10 = pre @ b1 # header # b2 # body @ b3 # post
        \<and> (\<forall>x \<in> set pre. \<not> isSeparateLine x) \<and> \<not> isSeparateLine header
        \<and> (\<forall>x \<in> set body. \<not> isSeparateLine x)
        \<and> isSeparateLine b1 \<and> isSeparateLine b2 \<and> isSeparateLine b3
        \<and> (\<exists>row \<in> set body. 124 \<notin> set row) \<longrightarrow>
      ParseText ParseV3 ParseV4 sql text = Inl SliceBoundsOutOfRange)
   \<and> ((\<forall>s rows p e. ParseV3 s rows = Inr (p, Some e) \<longrightarrow> p = Plan_zero)
        \<and> (\<forall>s rows p e. ParseV4 s rows = Inr (p, Some e) \<longrightarrow> p = Plan_zero)
        \<and> ParseText ParseV3 ParseV4 sql text = Inr (p, Some err) \<longrightarrow>
      p = Plan_zero)"
proof (intro conjI impI)
  assume "length (filter isSeparateLine (Split text 10)) < 3"
  then show "ParseText ParseV3 ParseV4 sql text
      = Inr (Plan_zero, Some (Errorf (str ''invalid explain result'')))"
    by (rule ParseText_fewer)
next
  assume "Split text 10 = pre @ b1 # b2 # b3 # post
        \<and> (\<forall>x \<in> set pre. \<not> isSeparateLine x)
        \<and> isSeparateLine b1 \<and> isSeparateLine b2 \<and> isSeparateLine b3"
  then show "ParseText ParseV3 ParseV4 sql text = Inl SliceBoundsOutOfRange"
    by (intro ParseText_adjacent_borders[where pre = pre and post = post]) auto
next
  assume a: "Split text 10 = pre @ b1 # header # b2 # body @ b3 # post
        \<and> (\<forall>x \<in> set pre. \<not> isSeparateLine x) \<and> \<not> isSeparateLine header
        \<and> (\<forall>x \<in> set body. \<not> isSeparateLine x)
        \<and> isSeparateLine b1 \<and> isSeparateLine b2 \<and> isSeparateLine b3
        \<and> (\<exists>row \<in> set body. 124 \<notin> set row)"
  then have "splitRows body = Inl SliceBoundsOutOfRange"
    by (intro splitRows_panic) blast
  moreover have "ParseText ParseV3 ParseV4 sql text =
     (case splitRows body of
        Inl e \<Rightarrow> Inl e
      | Inr rows \<Rightarrow> Parse ParseV3 ParseV4 (identifyVersion header)
                     (TrimSuffix (TrimSpace sql) (str '';'')) rows)"
    using a by (intro ParseText_table[where pre = pre and post = post]) auto
  ultimately show "ParseText ParseV3 ParseV4 sql text = Inl SliceBoundsOutOfRange"
    by simp
next
  assume "(\<forall>s rows p e. ParseV3 s rows = Inr (p, Some e) \<longrightarrow> p = Plan_zero)
        \<and> (\<forall>s rows p e. ParseV4 s rows = Inr (p, Some e) \<longrightarrow> p = Plan_zero)
        \<and> ParseText ParseV3 ParseV4 sql text = Inr (p, Some err)"
  then show "p = Plan_zero"
    using ParseText_error_plan[of ParseV3 ParseV4 sql "text" p err] by blast
qed

theorem ParseText_corrupt_block_witness:
  "ParseText (store_assembler V3) (store_assembler V4) (str ''select 1'') (str ''+-+\<newline>|id|'')
     = Inr (Plan_zero, Some (Errorf (str ''invalid explain result'')))
   \<and> ParseText (store_assembler V3) (store_assembler V4) (str ''select 1'')
       (str ''+-+\<newline>+-+\<newline>+-+'') = Inl SliceBoundsOutOfRange
   \<and> ParseText (store_assembler V3) (store_assembler V4) (str ''select 1'')
       (str ''+-+\<newline>|id|\<newline>+-+\<newline>ab\<newline>+-+'') = Inl SliceBoundsOutOfRange
   \<and> (\<exists>p err. ParseText (\<lambda>sql rows. Inr (Plan_zero, Some (Errorf (str ''no plan''))))
                  (store_assembler V4) (str ''select 1'')
                  (str ''+-+\<newline>|id|\<newline>+-+\<newline>|a|\<newline>+-+'') = Inr (p, Some err)
         \<and> p = Plan_zero)"
proof -
  let ?A3 = "store_assembler V3" and ?A4 = "store_assembler V4"
  let ?F = "\<lambda>sql rows. Inr (Plan_zero, Some (Errorf (str ''no plan'')))
              :: panic + (Plan \<times> error option)"
  let ?q = "str ''select 1''"
  let ?t1 = "str ''+-+\<newline>|id|''"
  let ?t2 = "str ''+-+\<newline>+-+\<newline>+-+''"
  let ?t3 = "str ''+-+\<newline>|id|\<newline>+-+\<newline>ab\<newline>+-+''"
  let ?t4 = "str ''+-+\<newline>|id|\<newline>+-+\<newline>|a|\<newline>+-+''"
  have h1: "length (filter isSeparateLine (Split ?t1 10)) < 3"
    by (simp add: Split_examples)
  have h2: "Split ?t2 10 = [] @ str ''+-+'' # str ''+-+'' # str ''+-+'' # []
      \<and> (\<forall>x \<in> set []. \<not> isSeparateLine x)
      \<and> isSeparateLine (str ''+-+'') \<and> isSeparateLine (str ''+-+'') \<and> isSeparateLine (str ''+-+'')"
    by (simp add: Split_examples isSeparateLine_examples)
  have h3: "Split ?t3 10 = [] @ str ''+-+'' # str ''|id|'' # str ''+-+'' # [str ''ab''] @ str ''+-+'' # []
      \<and> (\<forall>x \<in> set []. \<not> isSeparateLine x) \<and> \<not> isSeparateLine (str ''|id|'')
      \<and> (\<forall>x \<in> set [str ''ab'']. \<not> isSeparateLine x)
      \<and> isSeparateLine (str ''+-+'') \<and> isSeparateLine (str ''+-+'') \<and> isSeparateLine (str ''+-+'')
      \<and> (\<exists>row \<in> set [str ''ab'']. 124 \<notin> set row)"
    by (simp add: Split_examples isSeparateLine_examples) (simp add: str_def)
  have "ParseText ?F ?A4 ?q ?t4 =
     (case splitRows [str ''|a|''] of
        Inl e \<Rightarrow> Inl e
      | Inr rows \<Rightarrow> Parse ?F ?A4 (identifyVersion (str ''|id|''))
                     (TrimSuffix (TrimSpace ?q) (str '';'')) rows)"
    using ParseText_table[of ?t4 "[]" "str ''+-+''" "str ''|id|''" "str ''+-+''" "[str ''|a|'']"
        "str ''+-+''" "[]" ?F ?A4 ?q]
    by (simp add: Split_examples isSeparateLine_examples)
  then have run4: "ParseText ?F ?A4 ?q ?t4 = Inr (Plan_zero, Some (Errorf (str ''no plan'')))"
    by (simp add: splitRows_examples Parse_identifyVersion Contains_examples)
  have h4a: "\<forall>s rows p e. ?F s rows = Inr (p, Some e) \<longrightarrow> p = Plan_zero"
    by simp
  have h4b: "\<forall>s rows p e. ?A4 s rows = Inr (p, Some e) \<longrightarrow> p = Plan_zero"
    by (simp add: store_assembler_def)
  note t1 = ParseText_corrupt_block[where ?text = ?t1 and ?ParseV3.0 = ?A3 and ?ParseV4.0 = ?A4
      and ?sql = ?q]
  note t2 = ParseText_corrupt_block[where ?text = ?t2 and ?pre = "[]" and ?b1.0 = "str ''+-+''"
      and ?b2.0 = "str ''+-+''" and ?b3.0 = "str ''+-+''" and ?post = "[]"
      and ?ParseV3.0 = ?A3 and ?ParseV4.0 = ?A4 and ?sql = ?q]
  note t3 = ParseText_corrupt_block[where ?text = ?t3 and ?pre = "[]" and ?b1.0 = "str ''+-+''"
      and ?b2.0 = "str ''+-+''" and ?b3.0 = "str ''+-+''" and ?post = "[]"
      and ?header = "str ''|id|''" and ?body = "[str ''ab'']"
      and ?ParseV3.0 = ?A3 and ?ParseV4.0 = ?A4 and ?sql = ?q]
  note t4 = ParseText_corrupt_block[where ?text = ?t4 and ?ParseV3.0 = ?F and ?ParseV4.0 = ?A4
      and ?sql = ?q and ?p = Plan_zero and ?err = "Errorf (str ''no plan'')"]
  have c1: "ParseText ?A3 ?A4 ?q ?t1 = Inr (Plan_zero, Some (Errorf (str ''invalid explain result'')))"
    by (rule t1[THEN conjunct1, THEN mp, OF h1])
  have c2: "ParseText ?A3 ?A4 ?q ?t2 = Inl SliceBoundsOutOfRange"
    by (rule t2[THEN conjunct2, THEN conjunct1, THEN mp, OF h2])
  have c3: "ParseText ?A3 ?A4 ?q ?t3 = Inl SliceBoundsOutOfRange"
    by (rule t3[THEN conjunct2, THEN conjunct2, THEN conjunct1, THEN mp, OF h3])
  have c4: "Plan_zero = Plan_zero"
    by (rule t4[THEN conjunct2, THEN conjunct2, THEN conjunct2, THEN mp, OF conjI[OF h4a conjI[OF h4b run4]]])
  have "\<exists>p err. ParseText ?F ?A4 ?q ?t4 = Inr (p, Some err) \<and> p = Plan_zero"
    using run4 c4 by (intro exI[of _ Plan_zero] exI[of _ "Errorf (str ''no plan'')"] conjI)
  with c1 c2 c3 show ?thesis by (intro conjI)
qed

text \<open>
  The claim as first stated, that a corrupt block gives an error and never a panic, fails
  at a body line without \<open>|\<close> and at three adjacent separator lines.
\<close>

theorem corrupt_block_panics_counterexample:
  "ParseText (store_assembler V3) (store_assembler V4) (str ''select 1'')
     (str ''+-+\<newline>|id|\<newline>+-+\<newline>ab\<newline>+-+'') = Inl SliceBoundsOutOfRange
   \<and> (\<exists>row \<in> set [str ''ab'']. 124 \<notin> set row)
   \<and> ParseText (store_assembler V3) (store_assembler V4) (str ''select 1'')
       (str ''+-+\<newline>+-+\<newline>+-+'') = Inl SliceBoundsOutOfRange"
proof -
  have "ParseText (store_assembler V3) (store_assembler V4) (str ''select 1'')
     (str ''+-+\<newline>|id|\<newline>+-+\<newline>ab\<newline>+-+'') = Inl SliceBoundsOutOfRange"
    using ParseText_table[of "str ''+-+\<newline>|id|\<newline>+-+\<newline>ab\<newline>+-+''" "[]" "str ''+-+''" "str ''|id|''"
        "str ''+-+''" "[str ''ab'']" "str ''+-+''" "[]" "store_assembler V3" "store_assembler V4"
        "str ''select 1''"]
      splitRows_panic[of "[str ''ab'']"]
    by (simp add: Split_examples isSeparateLine_examples) (simp add: str_def)
  moreover have "\<exists>row \<in> set [str ''ab'']. 124 \<notin> set row"
    by (simp add: str_def)
  moreover have "ParseText (store_assembler V3) (store_assembler V4) (str ''select 1'')
       (str ''+-+\<newline>+-+\<newline>+-+'') = Inl SliceBoundsOutOfRange"
    using ParseText_adjacent_borders[of "str ''+-+\<newline>+-+\<newline>+-+''" "[]" "str ''+-+''" "str ''+-+''"
        "str ''+-+''" "[]"]
    by (simp add: Split_examples isSeparateLine_examples)
  ultimately show ?thesis by (intro conjI)
qed

section \<open>Dialect detection\<close>

lemma trimAndSplit_success:
  assumes "trimAndSplitExplainResult text = Inr (block, None)"
  shows "\<exists>top hdr rest. block = top # hdr # rest \<and> isSeparateLine top \<and> length block \<ge> 3"
proof (rule trimAndSplit_cases[of "text"])
  assume "trimAndSplitExplainResult text = Inr ([], Some (Errorf (str ''invalid explain result'')))"
  with assms show ?thesis by simp
next
  fix pre b1 mid1 b2 mid2 b3 post
  assume "isSeparateLine b1"
    and "trimAndSplitExplainResult text = Inr (b1 # mid1 @ b2 # mid2 @ [b3], None)"
  with assms have b: "block = b1 # mid1 @ b2 # mid2 @ [b3]" and s: "isSeparateLine b1" by simp_all
  show ?thesis
  proof (cases mid1)
    case Nil
    with b s show ?thesis by simp
  next
    case (Cons h t)
    with b s show ?thesis by simp
  qed
qed

lemma matchVersion_cases:
  "(matchVersion version = V3 \<longleftrightarrow> Contains (ToLower version) (str ''v3''))
   \<and> (matchVersion version = V4 \<longleftrightarrow>
        \<not> Contains (ToLower version) (str ''v3'') \<and> Contains (ToLower version) (str ''v4''))
   \<and> (matchVersion version = VUnknown \<longleftrightarrow>
        \<not> Contains (ToLower version) (str ''v3'') \<and> \<not> Contains (ToLower version) (str ''v4''))"
  using version_tags by (auto simp: matchVersion_def Let_def)

lemma Parse_examples:
  "matchVersion (str ''v3.0.12'') = V3"
  "matchVersion (str ''5.7.25-TiDB-V4.0.0'') = V4"
  "matchVersion (str ''9.9.9-Other'') = VUnknown"
  by (simp_all add: matchVersion_def str_def ToLower_def unicode_ToLower_def Let_def)

text \<open>
  C5. \<open>identifyVersion\<close> gives V4 exactly when the header holds the substring
  \<open>estRows\<close>, compared as it is written (so \<open>estrows\<close> does not count), and V3
  otherwise. \<open>ParseText\<close> applies it to the line that follows the top separator line of
  the extracted block, and so hands the rows to the V4 assembler exactly when that line
  holds \<open>estRows\<close>. Independently, \<open>matchVersion\<close> lower-cases a version string and
  gives V3 when it holds \<open>v3\<close>, else V4 when it holds \<open>v4\<close>, else the tag Unknown;
  \<open>Parse\<close> calls the assembler of the tag, and on Unknown returns the error
  \<open>unknown version\<close> with the empty plan.
\<close>

theorem version_detection:
  "(identifyVersion header = V4 \<longleftrightarrow> Contains header (str ''estRows''))
   \<and> (identifyVersion header = V3 \<longleftrightarrow> \<not> Contains header (str ''estRows''))
   \<and> identifyVersion (str ''|id|estRows|'') = V4
   \<and> identifyVersion (str ''|id|estrows|'') = V3
   \<and> (trimAndSplitExplainResult text = Inr (block, None) \<longrightarrow>
        (\<exists>top hdr rest. block = top # hdr # rest \<and> isSeparateLine top
           \<and> ParseText ParseV3 ParseV4 sql text =
               (case slice block 3 (int (length block) - 1) of
                  Inl e \<Rightarrow> Inl e
                | Inr body \<Rightarrow>
                    (case splitRows body of
                       Inl e \<Rightarrow> Inl e
                     | Inr rows \<Rightarrow>
                         if Contains hdr (str ''estRows'')
                         then ParseV4 (TrimSuffix (TrimSpace sql) (str '';'')) rows
                         else ParseV3 (TrimSuffix (TrimSpace sql) (str '';'')) rows))))
   \<and> (matchVersion version = V3 \<longleftrightarrow> Contains (ToLower version) (str ''v3''))
   \<and> (matchVersion version = V4 \<longleftrightarrow>
        \<not> Contains (ToLower version) (str ''v3'') \<and> Contains (ToLower version) (str ''v4''))
   \<and> (matchVersion version = VUnknown \<longleftrightarrow>
        \<not> Contains (ToLower version) (str ''v3'') \<and> \<not> Contains (ToLower version) (str ''v4''))
   \<and> (matchVersion version = V3 \<longrightarrow>
        Parse ParseV3 ParseV4 version sql explainRows = ParseV3 sql explainRows)
   \<and> (matchVersion version = V4 \<longrightarrow>
        Parse ParseV3 ParseV4 version sql explainRows = ParseV4 sql explainRows)
   \<and> (matchVersion version = VUnknown \<longrightarrow>
        Parse ParseV3 ParseV4 version sql explainRows
          = Inr (Plan_zero, Some (Errorf (str ''unknown version '' @ version))))"
proof -
  have id: "(identifyVersion header = V4 \<longleftrightarrow> Contains header (str ''estRows''))
      \<and> (identifyVersion header = V3 \<longleftrightarrow> \<not> Contains header (str ''estRows''))"
    using version_tags by (auto simp: identifyVersion_def)
  have ex: "identifyVersion (str ''|id|estRows|'') = V4 \<and> identifyVersion (str ''|id|estrows|'') = V3"
    by (simp add: identifyVersion_def Contains_examples)
  have block: "trimAndSplitExplainResult text = Inr (block, None) \<longrightarrow>
        (\<exists>top hdr rest. block = top # hdr # rest \<and> isSeparateLine top
           \<and> ParseText ParseV3 ParseV4 sql text =
               (case slice block 3 (int (length block) - 1) of
                  Inl e \<Rightarrow> Inl e
                | Inr body \<Rightarrow>
                    (case splitRows body of
                       Inl e \<Rightarrow> Inl e
                     | Inr rows \<Rightarrow>
                         if Contains hdr (str ''estRows'')
                         then ParseV4 (TrimSuffix (TrimSpace sql) (str '';'')) rows
                         else ParseV3 (TrimSuffix (TrimSpace sql) (str '';'')) rows)))"
  proof
    assume a: "trimAndSplitExplainResult text = Inr (block, None)"
    from trimAndSplit_success[OF a] obtain top hdr rest where
      b: "block = top # hdr # rest" "isSeparateLine top" by blast
    have "ParseText ParseV3 ParseV4 sql text =
               (case slice block 3 (int (length block) - 1) of
                  Inl e \<Rightarrow> Inl e
                | Inr body \<Rightarrow>
                    (case splitRows body of
                       Inl e \<Rightarrow> Inl e
                     | Inr rows \<Rightarrow>
                         if Contains hdr (str ''estRows'')
                         then ParseV4 (TrimSuffix (TrimSpace sql) (str '';'')) rows
                         else ParseV3 (TrimSuffix (TrimSpace sql) (str '';'')) rows))"
      using a b(1)
      by (simp add: ParseText_def index_def Let_def Parse_identifyVersion
          split: sum.splits)
    with b show "\<exists>top hdr rest. block = top # hdr # rest \<and> isSeparateLine top
           \<and> ParseText ParseV3 ParseV4 sql text =
               (case slice block 3 (int (length block) - 1) of
                  Inl e \<Rightarrow> Inl e
                | Inr body \<Rightarrow>
                    (case splitRows body of
                       Inl e \<Rightarrow> Inl e
                     | Inr rows \<Rightarrow>
                         if Contains hdr (str ''estRows'')
                         then ParseV4 (TrimSuffix (TrimSpace sql) (str '';'')) rows
                         else ParseV3 (TrimSuffix (TrimSpace sql) (str '';'')) rows))"
      by (intro exI[of _ top] exI[of _ hdr] exI[of _ rest] conjI)
  qed
  have p3: "matchVersion version = V3 \<longrightarrow>
        Parse ParseV3 ParseV4 version sql explainRows = ParseV3 sql explainRows"
    using version_tags by (simp add: Parse_def Let_def)
  have p4: "matchVersion version = V4 \<longrightarrow>
        Parse ParseV3 ParseV4 version sql explainRows = ParseV4 sql explainRows"
    using version_tags by (auto simp: Parse_def Let_def)
  have pu: "matchVersion version = VUnknown \<longrightarrow>
        Parse ParseV3 ParseV4 version sql explainRows
          = Inr (Plan_zero, Some (Errorf (str ''unknown version '' @ version)))"
    by (simp add: Parse_def Let_def)
  from id ex block matchVersion_cases[of version] p3 p4 pu show ?thesis
    by (intro conjI) (elim conjE, assumption)+
qed

theorem version_detection_witness:
  "ParseText (store_assembler V3) (store_assembler V4) (str ''select 1'')
     (str ''+-+\<newline>|id|estRows|\<newline>+-+\<newline>|a|\<newline>+-+'')
     = store_assembler V4 (str ''select 1'') [[str ''a'']]
   \<and> Parse (store_assembler V3) (store_assembler V4) (str ''v3.0.12'') (str ''select 1'') []
     = store_assembler V3 (str ''select 1'') []
   \<and> Parse (store_assembler V3) (store_assembler V4) (str ''5.7.25-TiDB-V4.0.0'')
       (str ''select 1'') []
     = store_assembler V4 (str ''select 1'') []
   \<and> Parse (store_assembler V3) (store_assembler V4) (str ''9.9.9-Other'') (str ''select 1'') []
     = Inr (Plan_zero, Some (Errorf (str ''unknown version '' @ str ''9.9.9-Other'')))"
proof -
  let ?A3 = "store_assembler V3" and ?A4 = "store_assembler V4"
  let ?q = "str ''select 1''"
  let ?t = "str ''+-+\<newline>|id|estRows|\<newline>+-+\<newline>|a|\<newline>+-+''"
  let ?block = "[str ''+-+'', str ''|id|estRows|'', str ''+-+'', str ''|a|'', str ''+-+'']"
  have h: "trimAndSplitExplainResult ?t = Inr (?block, None)"
    using trimAndSplit_block[of ?t "[]" "str ''+-+''" "[str ''|id|estRows|'']" "str ''+-+''"
        "[str ''|a|'']" "str ''+-+''" "[]"]
    by (simp add: Split_examples isSeparateLine_examples)
      (simp add: isSeparateLine_def TrimSpace_def TrimFunc_def IsSpace_def str_def)
  note t = version_detection[where ?text = ?t and ?block = ?block and ?ParseV3.0 = ?A3
      and ?ParseV4.0 = ?A4 and ?sql = ?q]
  from t[THEN conjunct2, THEN conjunct2, THEN conjunct2, THEN conjunct2, THEN conjunct1,
      THEN mp, OF h]
  obtain top hdr rest where b: "?block = top # hdr # rest"
    and r: "ParseText ?A3 ?A4 ?q ?t =
               (case slice ?block 3 (int (length ?block) - 1) of
                  Inl e \<Rightarrow> Inl e
                | Inr body \<Rightarrow>
                    (case splitRows body of
                       Inl e \<Rightarrow> Inl e
                     | Inr rows \<Rightarrow>
                         if Contains hdr (str ''estRows'')
                         then ?A4 (TrimSuffix (TrimSpace ?q) (str '';'')) rows
                         else ?A3 (TrimSuffix (TrimSpace ?q) (str '';'')) rows))"
    by blast
  from b have hdr: "hdr = str ''|id|estRows|''" by simp
  have q: "TrimSuffix (TrimSpace ?q) (str '';'') = ?q"
    by (simp add: TrimSuffix_def HasSuffix_def TrimSpace_def TrimFunc_def IsSpace_def str_def)
  have c1: "ParseText ?A3 ?A4 ?q ?t = ?A4 ?q [[str ''a'']]"
    unfolding r hdr q by (simp add: slice_def splitRows_examples Contains_examples)
  note v3 = version_detection[where ?version = "str ''v3.0.12''" and ?ParseV3.0 = ?A3
      and ?ParseV4.0 = ?A4 and ?sql = ?q and ?explainRows = "[]"]
  note v4 = version_detection[where ?version = "str ''5.7.25-TiDB-V4.0.0''" and ?ParseV3.0 = ?A3
      and ?ParseV4.0 = ?A4 and ?sql = ?q and ?explainRows = "[]"]
  note vu = version_detection[where ?version = "str ''9.9.9-Other''" and ?ParseV3.0 = ?A3
      and ?ParseV4.0 = ?A4 and ?sql = ?q and ?explainRows = "[]"]
  have c2: "Parse ?A3 ?A4 (str ''v3.0.12'') ?q [] = ?A3 ?q []"
    by (rule v3[THEN conjunct2, THEN conjunct2, THEN conjunct2, THEN conjunct2, THEN conjunct2,
          THEN conjunct2, THEN conjunct2, THEN conjunct2, THEN conjunct1, THEN mp,
          OF Parse_examples(1)])
  have c3: "Parse ?A3 ?A4 (str ''5.7.25-TiDB-V4.0.0'') ?q [] = ?A4 ?q []"
    by (rule v4[THEN conjunct2, THEN conjunct2, THEN conjunct2, THEN conjunct2, THEN conjunct2,
          THEN conjunct2, THEN conjunct2, THEN conjunct2, THEN conjunct2, THEN conjunct1, THEN mp,
          OF Parse_examples(2)])
  have c4: "Parse ?A3 ?A4 (str ''9.9.9-Other'') ?q []
      = Inr (Plan_zero, Some (Errorf (str ''unknown version '' @ str ''9.9.9-Other'')))"
    by (rule vu[THEN conjunct2, THEN conjunct2, THEN conjunct2, THEN conjunct2, THEN conjunct2,
          THEN conjunct2, THEN conjunct2, THEN conjunct2, THEN conjunct2, THEN conjunct2, THEN mp,
          OF Parse_examples(3)])
  from c1 c2 c3 c4 show ?thesis by (intro conjI)
qed

section \<open>Normalisation of the SQL text\<close>

lemma TrimSuffix_semicolon:
  "TrimSuffix t (str '';'') = (if t \<noteq> [] \<and> last t = 59 then butlast t else t)"
proof (cases t rule: rev_cases)
  case Nil
  then show ?thesis by (simp add: TrimSuffix_def HasSuffix_def str_def)
next
  case (snoc ys y)
  then show ?thesis by (simp add: TrimSuffix_def HasSuffix_def str_def)
qed

lemma ParseText_sql:
  assumes "\<forall>s rows p. pv3 s rows = Inr (p, None) \<longrightarrow> SQL p = s"
    and "\<forall>s rows p. pv4 s rows = Inr (p, None) \<longrightarrow> SQL p = s"
    and "ParseText pv3 pv4 sql text = Inr (p, None)"
  shows "SQL p = TrimSuffix (TrimSpace sql) (str '';'')"
proof -
  let ?n = "TrimSuffix (TrimSpace sql) (str '';'')"
  from assms(3) obtain ver rows where "Parse pv3 pv4 ver ?n rows = Inr (p, None)"
    by (auto simp: ParseText_def Let_def split: sum.splits prod.splits option.splits)
  then consider "pv3 ?n rows = Inr (p, None)" | "pv4 ?n rows = Inr (p, None)"
    by (auto simp: Parse_def Let_def split: if_splits)
  then show ?thesis using assms(1,2) by cases blast+
qed

lemma TrimSpace_example: "TrimSpace (str '' select 1; '') = str ''select 1;''"
  by (simp add: TrimSpace_def TrimFunc_def IsSpace_def str_def)

lemma sql_examples:
  "TrimSuffix (TrimSpace (str '' select 1; '')) (str '';'') = str ''select 1''"
  "TrimSuffix (TrimSpace (str ''select 1 ;'')) (str '';'') = str ''select 1 ''"
  "TrimSuffix (TrimSpace (str ''select 1;;'')) (str '';'') = str ''select 1;''"
  by (simp_all add: TrimSuffix_def HasSuffix_def TrimSpace_def TrimFunc_def IsSpace_def str_def)

lemma ParseText_example:
  "ParseText (store_assembler V3) (store_assembler V4) sql
     (str ''+-+\<newline>|id|\<newline>+-+\<newline>|a|\<newline>+-+'')
   = store_assembler V3 (TrimSuffix (TrimSpace sql) (str '';'')) [[str ''a'']]"
  using ParseText_table[of "str ''+-+\<newline>|id|\<newline>+-+\<newline>|a|\<newline>+-+''" "[]" "str ''+-+''" "str ''|id|''"
      "str ''+-+''" "[str ''|a|'']" "str ''+-+''" "[]" "store_assembler V3" "store_assembler V4" sql]
  by (simp add: Split_examples isSeparateLine_examples splitRows_examples Parse_identifyVersion
      Contains_examples)

text \<open>
  C6 (amended). For every SQL text, \<open>ParseText\<close> strips the surrounding whitespace and
  then removes one trailing \<open>;\<close>, if the stripped text ends in one; this is the text it
  hands to the assembler, and the text of the resulting plan when the assembler stores
  the text it is given. The text has no leading whitespace. Whitespace that stood before
  the removed \<open>;\<close> and further semicolons stay at its end.
\<close>

theorem stored_sql:
  "(\<exists>pre post. sql = pre @ TrimSpace sql @ post \<and> list_all IsSpace pre \<and> list_all IsSpace post)
   \<and> (TrimSpace sql \<noteq> [] \<longrightarrow>
        \<not> IsSpace (hd (TrimSpace sql)) \<and> \<not> IsSpace (last (TrimSpace sql)))
   \<and> TrimSuffix (TrimSpace sql) (str '';'')
       = (if TrimSpace sql \<noteq> [] \<and> last (TrimSpace sql) = 59
          then butlast (TrimSpace sql) else TrimSpace sql)
   \<and> (TrimSuffix (TrimSpace sql) (str '';'') \<noteq> [] \<longrightarrow>
        \<not> IsSpace (hd (TrimSuffix (TrimSpace sql) (str '';''))))
   \<and> ((\<forall>s rows p. ParseV3 s rows = Inr (p, None) \<longrightarrow> SQL p = s)
        \<and> (\<forall>s rows p. ParseV4 s rows = Inr (p, None) \<longrightarrow> SQL p = s)
        \<and> ParseText ParseV3 ParseV4 sql text = Inr (p, None) \<longrightarrow>
      SQL p = TrimSuffix (TrimSpace sql) (str '';''))"
proof -
  let ?t = "TrimSpace sql"
  let ?n = "TrimSuffix ?t (str '';'')"
  have 1: "\<exists>pre post. sql = pre @ ?t @ post \<and> list_all IsSpace pre \<and> list_all IsSpace post"
  proof (intro exI conjI)
    show "sql = takeWhile IsSpace sql @ ?t @ rev (takeWhile IsSpace (rev (dropWhile IsSpace sql)))"
      unfolding TrimSpace_def by (rule TrimFunc_decomp)
    show "list_all IsSpace (takeWhile IsSpace sql)"
      by (auto simp: list_all_iff dest: set_takeWhileD)
    show "list_all IsSpace (rev (takeWhile IsSpace (rev (dropWhile IsSpace sql))))"
      by (auto simp: list_all_iff dest: set_takeWhileD)
  qed
  have 2: "?t \<noteq> [] \<longrightarrow> \<not> IsSpace (hd ?t) \<and> \<not> IsSpace (last ?t)"
    by (simp add: TrimSpace_def TrimFunc_hd TrimFunc_last)
  have 3: "?n = (if ?t \<noteq> [] \<and> last ?t = 59 then butlast ?t else ?t)"
    by (rule TrimSuffix_semicolon)
  have 4: "?n \<noteq> [] \<longrightarrow> \<not> IsSpace (hd ?n)"
  proof
    assume n: "?n \<noteq> []"
    show "\<not> IsSpace (hd ?n)"
    proof (cases "?t \<noteq> [] \<and> last ?t = 59")
      case True
      with 3 n have "?n = butlast ?t" "butlast ?t \<noteq> []" by simp_all
      then have "hd ?n = hd ?t" by (cases ?t) auto
      with True 2 show ?thesis by simp
    next
      case False
      with 3 have "?n = ?t" by simp
      with n 2 show ?thesis by simp
    qed
  qed
  have 5: "(\<forall>s rows p. ParseV3 s rows = Inr (p, None) \<longrightarrow> SQL p = s)
        \<and> (\<forall>s rows p. ParseV4 s rows = Inr (p, None) \<longrightarrow> SQL p = s)
        \<and> ParseText ParseV3 ParseV4 sql text = Inr (p, None) \<longrightarrow> SQL p = ?n"
    using ParseText_sql[of ParseV3 ParseV4 sql "text" p] by (intro impI) (elim conjE, simp)
  from 1 2 3 4 5 show ?thesis by (intro conjI)
qed

theorem stored_sql_witness:
  "TrimSpace (str '' select 1; '') \<noteq> []
   \<and> \<not> IsSpace (hd (TrimSpace (str '' select 1; '')))
   \<and> \<not> IsSpace (last (TrimSpace (str '' select 1; '')))
   \<and> \<not> IsSpace (hd (TrimSuffix (TrimSpace (str '' select 1; '')) (str '';'')))
   \<and> ParseText (store_assembler V3) (store_assembler V4) (str '' select 1; '')
       (str ''+-+\<newline>|id|\<newline>+-+\<newline>|a|\<newline>+-+'')
     = Inr (\<lparr>SQL = str ''select 1'', Ver = V3,
             Root = BaseOperator (BaseOp [] OpTypeUnknown 0 TaskTypeRoot [])\<rparr>, None)
   \<and> SQL \<lparr>SQL = str ''select 1'', Ver = V3,
           Root = BaseOperator (BaseOp [] OpTypeUnknown 0 TaskTypeRoot [])\<rparr>
     = TrimSuffix (TrimSpace (str '' select 1; '')) (str '';'')"
proof -
  let ?sql = "str '' select 1; ''"
  let ?t = "str ''+-+\<newline>|id|\<newline>+-+\<newline>|a|\<newline>+-+''"
  let ?p = "\<lparr>SQL = str ''select 1'', Ver = V3,
             Root = BaseOperator (BaseOp [] OpTypeUnknown 0 TaskTypeRoot [])\<rparr>"
  note t = stored_sql[where ?sql = ?sql and ?ParseV3.0 = "store_assembler V3"
      and ?ParseV4.0 = "store_assembler V4" and ?text = ?t and ?p = ?p]
  have h2: "TrimSpace ?sql \<noteq> []" by (simp only: TrimSpace_example) (simp add: str_def)
  have h4: "TrimSuffix (TrimSpace ?sql) (str '';'') \<noteq> []"
    by (simp only: sql_examples(1)) (simp add: str_def)
  have run: "ParseText (store_assembler V3) (store_assembler V4) ?sql ?t = Inr (?p, None)"
    by (simp add: ParseText_example sql_examples store_assembler_def)
  have h5: "(\<forall>s rows p. store_assembler V3 s rows = Inr (p, None) \<longrightarrow> SQL p = s)
        \<and> (\<forall>s rows p. store_assembler V4 s rows = Inr (p, None) \<longrightarrow> SQL p = s)
        \<and> ParseText (store_assembler V3) (store_assembler V4) ?sql ?t = Inr (?p, None)"
    using run by (auto simp: store_assembler_def)
  from t[THEN conjunct2, THEN conjunct1, THEN mp, OF h2]
  have c2: "\<not> IsSpace (hd (TrimSpace ?sql)) \<and> \<not> IsSpace (last (TrimSpace ?sql))" .
  from t[THEN conjunct2, THEN conjunct2, THEN conjunct2, THEN conjunct1, THEN mp, OF h4]
  have c4: "\<not> IsSpace (hd (TrimSuffix (TrimSpace ?sql) (str '';'')))" .
  from t[THEN conjunct2, THEN conjunct2, THEN conjunct2, THEN conjunct2, THEN mp, OF h5]
  have c5: "SQL ?p = TrimSuffix (TrimSpace ?sql) (str '';'')" .
  from h2 c2 c4 run c5 show ?thesis by (intro conjI) (elim conjE, assumption)+
qed

text \<open>
  The claim as first stated, that the stored text has no trailing whitespace and no
  trailing semicolon, fails for \<open>select 1 ;\<close> and for \<open>select 1;;\<close>: the whitespace is
  stripped before the semicolon is, and one semicolon only.
\<close>

theorem stored_sql_counterexample:
  "ParseText (store_assembler V3) (store_assembler V4) (str ''select 1 ;'')
     (str ''+-+\<newline>|id|\<newline>+-+\<newline>|a|\<newline>+-+'')
     = Inr (\<lparr>SQL = str ''select 1 '', Ver = V3,
             Root = BaseOperator (BaseOp [] OpTypeUnknown 0 TaskTypeRoot [])\<rparr>, None)
   \<and> IsSpace (last (str ''select 1 ''))
   \<and> ParseText (store_assembler V3) (store_assembler V4) (str ''select 1;;'')
     (str ''+-+\<newline>|id|\<newline>+-+\<newline>|a|\<newline>+-+'')
     = Inr (\<lparr>SQL = str ''select 1;'', Ver = V3,
             Root = BaseOperator (BaseOp [] OpTypeUnknown 0 TaskTypeRoot [])\<rparr>, None)
   \<and> last (str ''select 1;'') = 59"
proof -
  have 1: "ParseText (store_assembler V3) (store_assembler V4) (str ''select 1 ;'')
     (str ''+-+\<newline>|id|\<newline>+-+\<newline>|a|\<newline>+-+'')
     = Inr (\<lparr>SQL = str ''select 1 '', Ver = V3,
             Root = BaseOperator (BaseOp [] OpTypeUnknown 0 TaskTypeRoot [])\<rparr>, None)"
    by (simp add: ParseText_example sql_examples store_assembler_def)
  have 2: "IsSpace (last (str ''select 1 ''))" by (simp add: str_def IsSpace_def)
  have 3: "ParseText (store_assembler V3) (store_assembler V4) (str ''select 1;;'')
     (str ''+-+\<newline>|id|\<newline>+-+\<newline>|a|\<newline>+-+'')
     = Inr (\<lparr>SQL = str ''select 1;'', Ver = V3,
             Root = BaseOperator (BaseOp [] OpTypeUnknown 0 TaskTypeRoot [])\<rparr>, None)"
    by (simp add: ParseText_example sql_examples store_assembler_def)
  have 4: "last (str ''select 1;'') = 59" by (simp add: str_def)
  from 1 2 3 4 show ?thesis by (intro conjI)
qed

section \<open>The comparator\<close>

lemma well_formed_iff:
  "well_formed op \<longleftrightarrow> struct_value op \<and> scan_typed op \<and> list_all well_formed (subtrees op)"
  by (subst well_formed_def, subst (1 2) all_nodes.simps)
    (auto simp: well_formed_def list_all_iff)

lemma is_TableScanOp_iff: "is_TableScanOp op \<longleftrightarrow> (\<exists>b t. op = TableScanOp b t)"
  by (cases op) auto

lemma is_IndexScanOp_iff: "is_IndexScanOp op \<longleftrightarrow> (\<exists>b t i. op = IndexScanOp b t i)"
  by (cases op) auto

lemma compare_node:
  assumes "embedded op1 = Some b1" "embedded op2 = Some b2" "scan_typed op1" "scan_typed op2"
  shows "compare op1 op2 =
    (case differing_field op1 op2 of
       Some m \<Rightarrow> Inr (reason_of (op1, op2, m), False)
     | None \<Rightarrow> compare_children (children b1) (children b2) 0)"
proof (cases "opType b1 \<noteq> opType b2 \<or> task b1 \<noteq> task b2
    \<or> length (children b1) \<noteq> length (children b2)")
  case True
  with assms(1,2) show ?thesis
    by (auto simp: compare.simps differing_field_def op_Type_def op_Task_def op_ID_def
        subtrees_def)
next
  case False
  then have eq: "opType b1 = opType b2" "task b1 = task b2"
    "length (children b1) = length (children b2)" by auto
  consider (table) "opType b1 = OpTypeTableScan" | (index) "opType b1 = OpTypeIndexScan"
    | (other) "opType b1 \<noteq> OpTypeTableScan" "opType b1 \<noteq> OpTypeIndexScan" by blast
  then show ?thesis
  proof cases
    case table
    with assms eq obtain t1 t2 where "op1 = TableScanOp b1 t1" "op2 = TableScanOp b2 t2"
      by (auto simp: scan_typed_def is_TableScanOp_iff)
    with table eq show ?thesis
      by (simp add: compare.simps compare_switch_def differing_field_def op_Type_def
          op_Task_def op_ID_def subtrees_def)
  next
    case index
    with assms eq obtain t1 i1 t2 i2 where
      "op1 = IndexScanOp b1 t1 i1" "op2 = IndexScanOp b2 t2 i2"
      by (auto simp: scan_typed_def is_IndexScanOp_iff)
    with index eq show ?thesis
      by (simp add: compare.simps compare_switch_def differing_field_def op_Type_def
          op_Task_def op_ID_def subtrees_def)
  next
    case other
    with assms(1,2) eq show ?thesis
      by (cases "opType b1")
        (simp_all add: compare.simps compare_switch_def differing_field_def op_Type_def
          op_Task_def op_ID_def subtrees_def)
  qed
qed

lemma compare_children_first_Some:
  assumes "length c1 = length c2"
    and "\<And>k. i \<le> k \<Longrightarrow> k < length c1 \<Longrightarrow>
           compare (c1 ! k) (c2 ! k) = Inr (verdict (first_mismatch (c1 ! k) (c2 ! k)))"
  shows "compare_children c1 c2 i =
    Inr (verdict (first_Some (map (\<lambda>(a, b). first_mismatch a b) (drop i (zip c1 c2)))))"
  using assms
proof (induction "length c1 - i" arbitrary: i)
  case 0
  then have "\<not> i < length c1" by simp
  then show ?case
    by (subst compare_children.simps) (simp add: verdict_def)
next
  case (Suc n)
  then have i: "i < length c1" "i < length c2" by simp_all
  then have d: "drop i (zip c1 c2) = (c1 ! i, c2 ! i) # drop (Suc i) (zip c1 c2)"
    by (simp add: Cons_nth_drop_Suc[symmetric])
  have here: "compare (c1 ! i) (c2 ! i) = Inr (verdict (first_mismatch (c1 ! i) (c2 ! i)))"
    using Suc.prems(2)[of i] i by simp
  show ?case
  proof (cases "first_mismatch (c1 ! i) (c2 ! i)")
    case (Some found)
    with i here show ?thesis
      by (subst compare_children.simps) (simp add: d verdict_def)
  next
    case None
    have "compare_children c1 c2 (Suc i) =
      Inr (verdict (first_Some (map (\<lambda>(a, b). first_mismatch a b)
        (drop (Suc i) (zip c1 c2)))))"
      using Suc.hyps(2) Suc.prems by (intro Suc.hyps(1)) simp_all
    with None i here show ?thesis
      by (subst compare_children.simps) (simp add: d verdict_def)
  qed
qed

lemma compare_first_mismatch:
  "well_formed op1 \<Longrightarrow> well_formed op2 \<Longrightarrow>
   compare op1 op2 = Inr (verdict (first_mismatch op1 op2))"
proof (induction op1 arbitrary: op2 rule: measure_induct_rule[where f = size])
  case (less op1)
  from less.prems obtain b1 b2 where b: "embedded op1 = Some b1" "embedded op2 = Some b2"
    and st: "scan_typed op1" "scan_typed op2"
    and wf: "list_all well_formed (children b1)" "list_all well_formed (children b2)"
    by (auto simp: well_formed_iff[of op1] well_formed_iff[of op2] struct_value_def
        subtrees_def)
  note node = compare_node[OF b st]
  show ?case
  proof (cases "differing_field op1 op2")
    case (Some m)
    with node show ?thesis
      by (simp add: first_mismatch.simps[of op1 op2] verdict_def)
  next
    case None
    then have len: "length (children b1) = length (children b2)"
      using b by (auto simp: differing_field_def subtrees_def split: if_splits)
    have "compare_children (children b1) (children b2) 0 =
      Inr (verdict (first_Some (map (\<lambda>(a, b). first_mismatch a b)
        (drop 0 (zip (children b1) (children b2))))))"
    proof (rule compare_children_first_Some[OF len])
      fix k assume k: "k < length (children b1)"
      then have "children b1 ! k \<in> set (children b1)" by simp
      then have "size (children b1 ! k) \<le> size_list size (children b1)"
        using size_list_estimation'[of "children b1 ! k" "children b1" "size (children b1 ! k)" size]
        by simp
      moreover from b(1) have "size_list size (children b1) < size op1"
        by (cases op1; cases b1) auto
      ultimately have "size (children b1 ! k) < size op1" by simp
      moreover from wf k len have "well_formed (children b1 ! k)" "well_formed (children b2 ! k)"
        by (simp_all add: list_all_length)
      ultimately show "compare (children b1 ! k) (children b2 ! k) =
        Inr (verdict (first_mismatch (children b1 ! k) (children b2 ! k)))"
        by (rule less.IH)
    qed
    with None node b show ?thesis
      by (simp add: first_mismatch.simps[of op1 op2] subtrees_def)
  qed
qed

lemma first_Some_None_iff: "first_Some xs = None \<longleftrightarrow> (\<forall>x \<in> set xs. x = None)"
  by (induction xs rule: first_Some.induct) auto

lemma size_subtree: "c \<in> set (subtrees op) \<Longrightarrow> size c < size op"
proof -
  assume "c \<in> set (subtrees op)"
  then obtain b where b: "embedded op = Some b" and c: "c \<in> set (children b)"
    by (cases "embedded op") (auto simp: subtrees_def)
  from c have "size c \<le> size_list size (children b)"
    using size_list_estimation'[of c "children b" "size c" size] by simp
  moreover from b have "size_list size (children b) < size op"
    by (cases op; cases b) auto
  ultimately show ?thesis by simp
qed

lemma reason_of_nonempty: "reason_of found \<noteq> []"
  by (cases found rule: reason_of.cases) (simp_all add: str_def)

lemma Contains_middle: "Contains (pre @ sub @ post) sub"
  unfolding Contains_iff by blast

lemma reason_of_names_IDs:
  "Contains (reason_of (n1, n2, m)) (op_ID n1)"
  "Contains (reason_of (n1, n2, m)) (op_ID n2)"
proof -
  show "Contains (reason_of (n1, n2, m)) (op_ID n1)"
    using Contains_middle[of "[]" "op_ID n1"] by (cases m) simp_all
  have "Contains ((op_ID n1 @ sep) @ op_ID n2 @ post) (op_ID n2)" for sep post
    by (rule Contains_middle)
  then have "Contains (op_ID n1 @ sep @ op_ID n2 @ post) (op_ID n2)" for sep post
    by simp
  from this[of "str '' and ''"] this[of "str '':'' @ op_Table n1 @ str '', ''"]
  show "Contains (reason_of (n1, n2, m)) (op_ID n2)"
    by (cases m) simp_all
qed

lemma differing_field_None_iff: "differing_field op1 op2 = None \<longleftrightarrow> node_alike op1 op2"
  by (auto simp: differing_field_def node_alike_def)

lemma first_mismatch_None_iff:
  "first_mismatch op1 op2 = None \<longleftrightarrow>
     differing_field op1 op2 = None
     \<and> (\<forall>k < min (length (subtrees op1)) (length (subtrees op2)).
           first_mismatch (subtrees op1 ! k) (subtrees op2 ! k) = None)"
  by (subst first_mismatch.simps)
    (auto simp: first_Some_None_iff set_zip split: option.splits)

lemma alike_iff:
  "alike op1 op2 \<longleftrightarrow>
     node_alike op1 op2
     \<and> (\<forall>k < min (length (subtrees op1)) (length (subtrees op2)).
           alike (subtrees op1 ! k) (subtrees op2 ! k))"
  by (subst alike.simps) (auto simp: list_all_iff set_zip)

lemma first_mismatch_None_alike: "first_mismatch op1 op2 = None \<longleftrightarrow> alike op1 op2"
proof (induction op1 arbitrary: op2 rule: measure_induct_rule[where f = size])
  case (less op1)
  have kids: "first_mismatch (subtrees op1 ! k) (subtrees op2 ! k) = None
      \<longleftrightarrow> alike (subtrees op1 ! k) (subtrees op2 ! k)"
    if "k < min (length (subtrees op1)) (length (subtrees op2))" for k
    using that by (intro less.IH) (simp add: size_subtree)
  show ?case
    unfolding first_mismatch_None_iff[of op1 op2] alike_iff[of op1 op2]
      differing_field_None_iff
    using kids by auto
qed

lemma node_alike_cong:
  assumes "node_alike op1 op1'" "node_alike op2 op2'"
  shows "node_alike op1 op2 \<longleftrightarrow> node_alike op1' op2'"
proof -
  from assms have t: "op_Type op1' = op_Type op1" "op_Type op2' = op_Type op2"
    "op_Task op1' = op_Task op1" "op_Task op2' = op_Task op2"
    "length (subtrees op1') = length (subtrees op1)"
    "length (subtrees op2') = length (subtrees op2)"
    by (simp_all add: node_alike_def)
  have tab: "op_Table op1' = op_Table op1 \<and> op_Table op2' = op_Table op2"
    if "op_Type op1 = op_Type op2" "op_Type op1 = OpTypeTableScan \<or> op_Type op1 = OpTypeIndexScan"
    using assms that by (auto simp: node_alike_def split: if_splits)
  have idx: "op_Index op1' = op_Index op1 \<and> op_Index op2' = op_Index op2"
    if "op_Type op1 = op_Type op2" "op_Type op1 = OpTypeIndexScan"
    using assms that by (auto simp: node_alike_def split: if_splits)
  show ?thesis
    using tab idx by (auto simp: node_alike_def t split: if_splits)
qed

lemma alike_cong:
  "alike op1 op1' \<Longrightarrow> alike op2 op2' \<Longrightarrow> alike op1 op2 \<longleftrightarrow> alike op1' op2'"
proof (induction op1 arbitrary: op2 op1' op2' rule: measure_induct_rule[where f = size])
  case (less op1)
  from less.prems have n: "node_alike op1 op1'" "node_alike op2 op2'"
    by (simp_all add: alike_iff[of op1 op1'] alike_iff[of op2 op2'])
  then have len: "length (subtrees op1') = length (subtrees op1)"
    "length (subtrees op2') = length (subtrees op2)"
    by (simp_all add: node_alike_def)
  have kids: "alike (subtrees op1 ! k) (subtrees op2 ! k)
      \<longleftrightarrow> alike (subtrees op1' ! k) (subtrees op2' ! k)"
    if "k < min (length (subtrees op1)) (length (subtrees op2))" for k
  proof -
    from that have "size (subtrees op1 ! k) < size op1" by (simp add: size_subtree)
    moreover from less.prems(1) that len have "alike (subtrees op1 ! k) (subtrees op1' ! k)"
      by (simp add: alike_iff[of op1 op1'])
    moreover from less.prems(2) that len have "alike (subtrees op2 ! k) (subtrees op2' ! k)"
      by (simp add: alike_iff[of op2 op2'])
    ultimately show ?thesis by (rule less.IH)
  qed
  show ?case
    unfolding alike_iff[of op1 op2] alike_iff[of op1' op2']
    using node_alike_cong[OF n] kids by (simp add: len)
qed

lemmas tree_eval = well_formed_def all_nodes.simps alike.simps node_alike_def struct_value_def
  scan_typed_def op_Type_def op_Task_def op_ID_def subtrees_def

text \<open>
  C3 (amended). When the SQL texts of two plans differ, \<open>Compare\<close> returns same = false
  with the reason \<open>differentiate SQLs\<close> whatever the two roots are, nil included: the
  trees are not walked. When the texts are equal and the two trees are well formed (every
  operator is a struct value of plan.go, not nil, and every operator typed TableScan or
  IndexScan is a \<^verbatim>\<open>TableScanOp\<close> or an \<^verbatim>\<open>IndexScanOp\<close>), \<open>Compare\<close> returns the verdict
  of the pre-order walk \<open>first_mismatch\<close> on the two roots: the type, the task location
  and the number of children of two nodes must match, TableScan nodes must have the same
  table and IndexScan nodes the same table and index, and on a match the children are
  compared pairwise by position; the first pair of nodes that differ ends the walk with
  same = false and the reason of that pair; when no pair differs the result is
  same = true with the empty reason. The reason is never empty and names the identifiers
  of the two nodes that differ. It is \<open>ID1 and ID2 have different types\<close> for a different
  type and also for a different task location, \<open>ID1 and ID2 have different children
  lengths\<close> for a different number of children, and \<open>ID1:Table1, ID2:Table2\<close> for a
  different table and also for a different index.
\<close>

theorem Compare_first_mismatch:
  "(SQL p1 \<noteq> SQL p2 \<longrightarrow> Compare p1 p2 = Inr (str ''differentiate SQLs'', False))
   \<and> (SQL p1 = SQL p2 \<and> well_formed (Root p1) \<and> well_formed (Root p2) \<longrightarrow>
        Compare p1 p2 = Inr (verdict (first_mismatch (Root p1) (Root p2))))
   \<and> reason_of (n1, n2, m) \<noteq> []
   \<and> Contains (reason_of (n1, n2, m)) (op_ID n1)
   \<and> Contains (reason_of (n1, n2, m)) (op_ID n2)"
  by (simp add: Compare_def compare_first_mismatch reason_of_nonempty reason_of_names_IDs)

theorem Compare_first_mismatch_witness:
  "Compare
     \<lparr>SQL = str ''select 1'', Ver = V4,
      Root = TableReaderOp (BaseOp (str ''TableReader_5'') OpTypeTableReader 1 TaskTypeRoot
        [TableScanOp (BaseOp (str ''TableScan_3'') OpTypeTableScan 1 TaskTypeTiKV [])
           (str ''t1'')])\<rparr>
     \<lparr>SQL = str ''select 2'', Ver = V4,
      Root = TableReaderOp (BaseOp (str ''TableReader_6'') OpTypeTableReader 1 TaskTypeRoot
        [TableScanOp (BaseOp (str ''TableScan_4'') OpTypeTableScan 1 TaskTypeTiKV [])
           (str ''t2'')])\<rparr>
     = Inr (str ''differentiate SQLs'', False)
   \<and> Compare
     \<lparr>SQL = str ''select 1'', Ver = V4,
      Root = TableReaderOp (BaseOp (str ''TableReader_5'') OpTypeTableReader 1 TaskTypeRoot
        [TableScanOp (BaseOp (str ''TableScan_3'') OpTypeTableScan 1 TaskTypeTiKV [])
           (str ''t1'')])\<rparr>
     \<lparr>SQL = str ''select 1'', Ver = V4,
      Root = TableReaderOp (BaseOp (str ''TableReader_6'') OpTypeTableReader 1 TaskTypeRoot
        [TableScanOp (BaseOp (str ''TableScan_4'') OpTypeTableScan 1 TaskTypeTiKV [])
           (str ''t2'')])\<rparr>
     = Inr (str ''TableScan_3:t1, TableScan_4:t2'', False)
   \<and> Compare
     \<lparr>SQL = str ''select 1'', Ver = V4,
      Root = TableReaderOp (BaseOp (str ''TableReader_5'') OpTypeTableReader 1 TaskTypeRoot
        [TableScanOp (BaseOp (str ''TableScan_3'') OpTypeTableScan 1 TaskTypeTiKV [])
           (str ''t1'')])\<rparr>
     \<lparr>SQL = str ''select 1'', Ver = V3,
      Root = TableReaderOp (BaseOp (str ''TableReader_9'') OpTypeTableReader 7 TaskTypeRoot
        [TableScanOp (BaseOp (str ''TableScan_8'') OpTypeTableScan 7 TaskTypeTiKV [])
           (str ''t1'')])\<rparr>
     = Inr ([], True)"
proof -
  let ?rootA = "TableReaderOp (BaseOp (str ''TableReader_5'') OpTypeTableReader 1 TaskTypeRoot
        [TableScanOp (BaseOp (str ''TableScan_3'') OpTypeTableScan 1 TaskTypeTiKV [])
           (str ''t1'')])"
  let ?rootB = "TableReaderOp (BaseOp (str ''TableReader_6'') OpTypeTableReader 1 TaskTypeRoot
        [TableScanOp (BaseOp (str ''TableScan_4'') OpTypeTableScan 1 TaskTypeTiKV [])
           (str ''t2'')])"
  let ?rootC = "TableReaderOp (BaseOp (str ''TableReader_9'') OpTypeTableReader 7 TaskTypeRoot
        [TableScanOp (BaseOp (str ''TableScan_8'') OpTypeTableScan 7 TaskTypeTiKV [])
           (str ''t1'')])"
  let ?pA = "\<lparr>SQL = str ''select 1'', Ver = V4, Root = ?rootA\<rparr>"
  let ?pB = "\<lparr>SQL = str ''select 1'', Ver = V4, Root = ?rootB\<rparr>"
  let ?pB2 = "\<lparr>SQL = str ''select 2'', Ver = V4, Root = ?rootB\<rparr>"
  let ?pC = "\<lparr>SQL = str ''select 1'', Ver = V3, Root = ?rootC\<rparr>"
  have h1: "SQL ?pA \<noteq> SQL ?pB2" by (simp add: str_def)
  have h2: "SQL ?pA = SQL ?pB \<and> well_formed (Root ?pA) \<and> well_formed (Root ?pB)"
    by (simp add: tree_eval)
  have h3: "SQL ?pA = SQL ?pC \<and> well_formed (Root ?pA) \<and> well_formed (Root ?pC)"
    by (simp add: tree_eval)
  have d2: "verdict (first_mismatch ?rootA ?rootB)
      = (str ''TableScan_3:t1, TableScan_4:t2'', False)"
    by (simp add: first_mismatch.simps differing_field_def verdict_def tree_eval)
      (simp add: str_def)
  have d3: "verdict (first_mismatch ?rootA ?rootC) = ([], True)"
    by (simp add: first_mismatch.simps differing_field_def verdict_def tree_eval)
  from Compare_first_mismatch[of ?pA ?pB2, THEN conjunct1, THEN mp, OF h1]
  have c1: "Compare ?pA ?pB2 = Inr (str ''differentiate SQLs'', False)" .
  from Compare_first_mismatch[of ?pA ?pB, THEN conjunct2, THEN conjunct1, THEN mp, OF h2]
  have c2: "Compare ?pA ?pB = Inr (str ''TableScan_3:t1, TableScan_4:t2'', False)"
    by (simp add: d2)
  from Compare_first_mismatch[of ?pA ?pC, THEN conjunct2, THEN conjunct1, THEN mp, OF h3]
  have c3: "Compare ?pA ?pC = Inr ([], True)"
    by (simp add: d3)
  from c1 c2 c3 show ?thesis by (intro conjI)
qed

text \<open>
  The claim as first stated speaks of every pair of plans and of a reason that names the
  field in which the two operators differ. Two Selection operators that differ in their
  task location only are reported with the words \<open>have different types\<close>, the words of a
  Selection and a Projection that differ in their type; the reason does not name the
  task location. And on plans that are not well formed \<open>Compare\<close> does not return: a
  \<^verbatim>\<open>BaseOp\<close> typed IndexScan compared with itself fails the type assertion, and a plan
  compared with one whose root is nil calls a method on the nil interface value.
\<close>

theorem Compare_task_reason_counterexample:
  "Compare
     \<lparr>SQL = str ''select 1'', Ver = V4,
      Root = SelectionOp (BaseOp (str ''Selection_1'') OpTypeSelection 1 TaskTypeRoot [])\<rparr>
     \<lparr>SQL = str ''select 1'', Ver = V4,
      Root = SelectionOp (BaseOp (str ''Selection_2'') OpTypeSelection 1 TaskTypeTiKV [])\<rparr>
     = Inr (str ''Selection_1 and Selection_2 have different types'', False)
   \<and> op_Type (SelectionOp (BaseOp (str ''Selection_1'') OpTypeSelection 1 TaskTypeRoot []))
     = op_Type (SelectionOp (BaseOp (str ''Selection_2'') OpTypeSelection 1 TaskTypeTiKV []))
   \<and> op_Task (SelectionOp (BaseOp (str ''Selection_1'') OpTypeSelection 1 TaskTypeRoot []))
     \<noteq> op_Task (SelectionOp (BaseOp (str ''Selection_2'') OpTypeSelection 1 TaskTypeTiKV []))
   \<and> Compare
     \<lparr>SQL = str ''select 1'', Ver = V4,
      Root = SelectionOp (BaseOp (str ''Selection_1'') OpTypeSelection 1 TaskTypeRoot [])\<rparr>
     \<lparr>SQL = str ''select 1'', Ver = V4,
      Root = ProjectionOp (BaseOp (str ''Projection_2'') OpTypeProjection 1 TaskTypeRoot [])\<rparr>
     = Inr (str ''Selection_1 and Projection_2 have different types'', False)
   \<and> Compare
     \<lparr>SQL = str ''select 1'', Ver = V4,
      Root = BaseOperator (BaseOp (str ''IndexScan_1'') OpTypeIndexScan 1 TaskTypeTiKV [])\<rparr>
     \<lparr>SQL = str ''select 1'', Ver = V4,
      Root = BaseOperator (BaseOp (str ''IndexScan_1'') OpTypeIndexScan 1 TaskTypeTiKV [])\<rparr>
     = Inl TypeAssertionFailed
   \<and> Compare
     \<lparr>SQL = [], Ver = V4,
      Root = SelectionOp (BaseOp (str ''Selection_1'') OpTypeSelection 1 TaskTypeRoot [])\<rparr>
     Plan_zero
     = Inl NilDereference"
proof -
  have reasons:
    "str ''Selection_1'' @ str '' and '' @ str ''Selection_2'' @ str '' have different types''
       = str ''Selection_1 and Selection_2 have different types''"
    "str ''Selection_1'' @ str '' and '' @ str ''Projection_2'' @ str '' have different types''
       = str ''Selection_1 and Projection_2 have different types''"
    by (simp_all add: str_def)
  show ?thesis
    by (simp add: Plan_zero_def Compare_def compare.simps compare_children.simps
        compare_switch_def tree_eval reasons)
qed

text \<open>
  C8 (amended). For every pair of plans in which every operator (the root and the
  children at every depth) is a struct value of plan.go, not nil and not a pointer, and
  every operator is scan-typed (one whose \<^verbatim>\<open>Type()\<close> is \<open>OpTypeTableScan\<close> is a
  \<^verbatim>\<open>TableScanOp\<close>, one whose \<^verbatim>\<open>Type()\<close> is \<open>OpTypeIndexScan\<close> is an \<^verbatim>\<open>IndexScanOp\<close>),
  \<open>Compare\<close> returns: no type assertion fails and nothing panics. Every mismatch is
  encoded in the verdict: same = true is returned exactly when the SQL texts are equal
  and the two trees are alike, and it comes with the empty reason; in every other case
  the result is same = false with a reason that is not empty, and when the SQL texts are
  equal and the walk finds a first pair of nodes that differ, it is the reason of that
  pair.
\<close>

theorem Compare_total:
  "all_nodes struct_value (Root p1) \<and> all_nodes scan_typed (Root p1)
   \<and> all_nodes struct_value (Root p2) \<and> all_nodes scan_typed (Root p2) \<longrightarrow>
   (\<exists>reason same. Compare p1 p2 = Inr (reason, same) \<and> (same \<longleftrightarrow> reason = [])
      \<and> (same \<longleftrightarrow> SQL p1 = SQL p2 \<and> alike (Root p1) (Root p2)))
   \<and> (SQL p1 = SQL p2 \<and> first_mismatch (Root p1) (Root p2) = Some found \<longrightarrow>
        Compare p1 p2 = Inr (reason_of found, False))"
proof
  assume "all_nodes struct_value (Root p1) \<and> all_nodes scan_typed (Root p1)
   \<and> all_nodes struct_value (Root p2) \<and> all_nodes scan_typed (Root p2)"
  then have wf: "well_formed (Root p1)" "well_formed (Root p2)"
    by (simp_all add: well_formed_def)
  have walk: "Compare p1 p2 = Inr (verdict (first_mismatch (Root p1) (Root p2)))"
    if "SQL p1 = SQL p2"
    using that wf by (simp add: Compare_def compare_first_mismatch)
  have total: "\<exists>reason same. Compare p1 p2 = Inr (reason, same) \<and> (same \<longleftrightarrow> reason = [])
      \<and> (same \<longleftrightarrow> SQL p1 = SQL p2 \<and> alike (Root p1) (Root p2))"
  proof (cases "SQL p1 \<noteq> SQL p2")
    case True
    then have "Compare p1 p2 = Inr (str ''differentiate SQLs'', False)"
      by (simp add: Compare_def)
    moreover have "str ''differentiate SQLs'' \<noteq> []" by (simp add: str_def)
    ultimately show ?thesis using True by simp
  next
    case False
    then have c: "Compare p1 p2 = Inr (verdict (first_mismatch (Root p1) (Root p2)))"
      by (simp add: walk)
    show ?thesis
    proof (cases "first_mismatch (Root p1) (Root p2)")
      case None
      moreover from None have "alike (Root p1) (Root p2)"
        by (simp add: first_mismatch_None_alike)
      ultimately show ?thesis using c False by (simp add: verdict_def)
    next
      case (Some found')
      then have "\<not> alike (Root p1) (Root p2)"
        using first_mismatch_None_alike[of "Root p1" "Root p2"] by simp
      with c Some reason_of_nonempty[of found'] show ?thesis by (simp add: verdict_def)
    qed
  qed
  have reported: "SQL p1 = SQL p2 \<and> first_mismatch (Root p1) (Root p2) = Some found \<longrightarrow>
        Compare p1 p2 = Inr (reason_of found, False)"
    by (auto simp: walk verdict_def)
  from total reported
  show "(\<exists>reason same. Compare p1 p2 = Inr (reason, same) \<and> (same \<longleftrightarrow> reason = [])
      \<and> (same \<longleftrightarrow> SQL p1 = SQL p2 \<and> alike (Root p1) (Root p2)))
   \<and> (SQL p1 = SQL p2 \<and> first_mismatch (Root p1) (Root p2) = Some found \<longrightarrow>
        Compare p1 p2 = Inr (reason_of found, False))"
    by (rule conjI)
qed

theorem Compare_total_witness:
  "(\<exists>reason same.
     Compare
       \<lparr>SQL = str ''select 1'', Ver = V4,
        Root = TableReaderOp (BaseOp (str ''TableReader_5'') OpTypeTableReader 1 TaskTypeRoot
          [TableScanOp (BaseOp (str ''TableScan_3'') OpTypeTableScan 1 TaskTypeTiKV [])
             (str ''t1'')])\<rparr>
       \<lparr>SQL = str ''select 1'', Ver = V4,
        Root = TableReaderOp (BaseOp (str ''TableReader_6'') OpTypeTableReader 1 TaskTypeRoot
          [IndexScanOp (BaseOp (str ''IndexScan_4'') OpTypeIndexScan 1 TaskTypeTiKV [])
             (str ''t1'') (str ''idx'')])\<rparr>
       = Inr (reason, same) \<and> (same \<longleftrightarrow> reason = []) \<and> \<not> same)
   \<and> Compare
       \<lparr>SQL = str ''select 1'', Ver = V4,
        Root = TableReaderOp (BaseOp (str ''TableReader_5'') OpTypeTableReader 1 TaskTypeRoot
          [TableScanOp (BaseOp (str ''TableScan_3'') OpTypeTableScan 1 TaskTypeTiKV [])
             (str ''t1'')])\<rparr>
       \<lparr>SQL = str ''select 1'', Ver = V4,
        Root = TableReaderOp (BaseOp (str ''TableReader_6'') OpTypeTableReader 1 TaskTypeRoot
          [IndexScanOp (BaseOp (str ''IndexScan_4'') OpTypeIndexScan 1 TaskTypeTiKV [])
             (str ''t1'') (str ''idx'')])\<rparr>
       = Inr (str ''TableScan_3 and IndexScan_4 have different types'', False)"
proof -
  let ?nA = "TableScanOp (BaseOp (str ''TableScan_3'') OpTypeTableScan 1 TaskTypeTiKV [])
             (str ''t1'')"
  let ?nB = "IndexScanOp (BaseOp (str ''IndexScan_4'') OpTypeIndexScan 1 TaskTypeTiKV [])
             (str ''t1'') (str ''idx'')"
  let ?pA = "\<lparr>SQL = str ''select 1'', Ver = V4,
        Root = TableReaderOp (BaseOp (str ''TableReader_5'') OpTypeTableReader 1 TaskTypeRoot
          [?nA])\<rparr>"
  let ?pB = "\<lparr>SQL = str ''select 1'', Ver = V4,
        Root = TableReaderOp (BaseOp (str ''TableReader_6'') OpTypeTableReader 1 TaskTypeRoot
          [?nB])\<rparr>"
  have h: "all_nodes struct_value (Root ?pA) \<and> all_nodes scan_typed (Root ?pA)
      \<and> all_nodes struct_value (Root ?pB) \<and> all_nodes scan_typed (Root ?pB)"
    by (simp add: tree_eval)
  have found: "SQL ?pA = SQL ?pB
      \<and> first_mismatch (Root ?pA) (Root ?pB) = Some (?nA, ?nB, DifferentOpType)"
    by (simp add: first_mismatch.simps differing_field_def tree_eval)
  have differ: "\<not> alike (Root ?pA) (Root ?pB)"
    by (simp add: tree_eval)
  have text_of: "reason_of (?nA, ?nB, DifferentOpType)
      = str ''TableScan_3 and IndexScan_4 have different types''"
    by (simp add: tree_eval str_def)
  note both = Compare_total[of ?pA ?pB "(?nA, ?nB, DifferentOpType)", THEN mp, OF h]
  from both[THEN conjunct1] differ
  have c1: "\<exists>reason same. Compare ?pA ?pB = Inr (reason, same) \<and> (same \<longleftrightarrow> reason = [])
      \<and> \<not> same"
    by auto
  from both[THEN conjunct2, THEN mp, OF found]
  have c2: "Compare ?pA ?pB = Inr (str ''TableScan_3 and IndexScan_4 have different types'',
      False)"
    by (simp only: text_of)
  from c1 c2 show ?thesis by (intro conjI)
qed

text \<open>
  The claim as first stated asks only that the operators be scan-typed. The zero value
  \<^verbatim>\<open>Plan{}\<close>, which \<open>Parse\<close> and \<open>ParseText\<close> return beside an error, has a nil root and
  so no operator at all; \<open>Compare\<close> calls \<^verbatim>\<open>Type()\<close> on the nil root and panics. A nil
  child does the same.
\<close>

theorem Compare_nil_counterexample:
  "all_nodes scan_typed (Root Plan_zero)
   \<and> Compare Plan_zero Plan_zero = Inl NilDereference
   \<and> all_nodes scan_typed (BaseOperator (BaseOp (str ''Selection_1'') OpTypeSelection 1
        TaskTypeRoot [NilOperator]))
   \<and> Compare
       \<lparr>SQL = [], Ver = V4, Root = BaseOperator (BaseOp (str ''Selection_1'') OpTypeSelection 1
          TaskTypeRoot [NilOperator])\<rparr>
       \<lparr>SQL = [], Ver = V4, Root = BaseOperator (BaseOp (str ''Selection_1'') OpTypeSelection 1
          TaskTypeRoot [NilOperator])\<rparr>
     = Inl NilDereference"
  by (simp add: Plan_zero_def Compare_def compare.simps compare_children.simps
      compare_switch_def tree_eval)

text \<open>
  C10 (amended). For every two plans with equal SQL whose trees are well formed (every
  operator is a struct value of plan.go, not nil and not a pointer, every operator whose
  \<^verbatim>\<open>Type()\<close> is \<open>OpTypeTableScan\<close> is a \<^verbatim>\<open>TableScanOp\<close> and every operator whose
  \<^verbatim>\<open>Type()\<close> is \<open>OpTypeIndexScan\<close> is an \<^verbatim>\<open>IndexScanOp\<close>) and alike (the same shape, the
  same type and task location at every node, the same table on every TableScan node and
  the same table and index on every IndexScan node), \<open>Compare\<close> returns same = true with
  the empty reason, however the identifiers, the row estimates and the join types differ.
  More generally the verdict does not depend on them: replacing two well-formed plans by
  well-formed plans alike to them leaves the verdict as it is, and can change the reason
  only.
\<close>

theorem Compare_alike:
  "(SQL p1 = SQL p2 \<and> well_formed (Root p1) \<and> well_formed (Root p2)
      \<and> alike (Root p1) (Root p2) \<longrightarrow> Compare p1 p2 = Inr ([], True))
   \<and> (SQL p1 = SQL p2 \<and> SQL p1' = SQL p2'
        \<and> well_formed (Root p1) \<and> well_formed (Root p2)
        \<and> well_formed (Root p1') \<and> well_formed (Root p2')
        \<and> alike (Root p1) (Root p1') \<and> alike (Root p2) (Root p2') \<longrightarrow>
        (\<exists>reason reason' same.
           Compare p1 p2 = Inr (reason, same) \<and> Compare p1' p2' = Inr (reason', same)))"
proof (intro conjI impI)
  assume "SQL p1 = SQL p2 \<and> well_formed (Root p1) \<and> well_formed (Root p2)
      \<and> alike (Root p1) (Root p2)"
  then show "Compare p1 p2 = Inr ([], True)"
    using first_mismatch_None_alike[of "Root p1" "Root p2"]
    by (simp add: Compare_def compare_first_mismatch verdict_def)
next
  assume a: "SQL p1 = SQL p2 \<and> SQL p1' = SQL p2'
        \<and> well_formed (Root p1) \<and> well_formed (Root p2)
        \<and> well_formed (Root p1') \<and> well_formed (Root p2')
        \<and> alike (Root p1) (Root p1') \<and> alike (Root p2) (Root p2')"
  then have c: "Compare p1 p2 = Inr (verdict (first_mismatch (Root p1) (Root p2)))"
    "Compare p1' p2' = Inr (verdict (first_mismatch (Root p1') (Root p2')))"
    by (simp_all add: Compare_def compare_first_mismatch)
  from a have "alike (Root p1) (Root p2) \<longleftrightarrow> alike (Root p1') (Root p2')"
    by (intro alike_cong) simp_all
  then have "first_mismatch (Root p1) (Root p2) = None
      \<longleftrightarrow> first_mismatch (Root p1') (Root p2') = None"
    by (simp add: first_mismatch_None_alike)
  then have "snd (verdict (first_mismatch (Root p1) (Root p2)))
      = snd (verdict (first_mismatch (Root p1') (Root p2')))"
    by (auto simp: verdict_def split: option.splits)
  moreover obtain r s where v: "verdict (first_mismatch (Root p1) (Root p2)) = (r, s)"
    by (cases "verdict (first_mismatch (Root p1) (Root p2))")
  moreover obtain r' s' where v': "verdict (first_mismatch (Root p1') (Root p2')) = (r', s')"
    by (cases "verdict (first_mismatch (Root p1') (Root p2'))")
  ultimately have "Compare p1 p2 = Inr (r, s) \<and> Compare p1' p2' = Inr (r', s)"
    using c by simp
  then show "\<exists>reason reason' same.
           Compare p1 p2 = Inr (reason, same) \<and> Compare p1' p2' = Inr (reason', same)"
    by (intro exI)
qed

theorem Compare_alike_witness:
  "Compare
     \<lparr>SQL = str ''select 1'', Ver = V3,
      Root = HashJoinOp (BaseOp (str ''HashJoin_1'') OpTypeHashJoin 5 TaskTypeRoot
        [TableScanOp (BaseOp (str ''TableScan_2'') OpTypeTableScan 1 TaskTypeTiKV []) (str ''t''),
         IndexScanOp (BaseOp (str ''IndexScan_3'') OpTypeIndexScan 2 TaskTypeTiKV [])
           (str ''u'') (str ''idx'')]) JoinTypeInner\<rparr>
     \<lparr>SQL = str ''select 1'', Ver = V4,
      Root = HashJoinOp (BaseOp (str ''HashJoin_9'') OpTypeHashJoin 77 TaskTypeRoot
        [TableScanOp (BaseOp (str ''TableScan_8'') OpTypeTableScan 30 TaskTypeTiKV []) (str ''t''),
         IndexScanOp (BaseOp (str ''IndexScan_7'') OpTypeIndexScan 40 TaskTypeTiKV [])
           (str ''u'') (str ''idx'')]) JoinTypeSemi\<rparr>
     = Inr ([], True)
   \<and> (\<exists>reason reason' same.
        Compare
          \<lparr>SQL = [], Ver = V3, Root = TableScanOp
             (BaseOp (str ''TableScan_2'') OpTypeTableScan 1 TaskTypeTiKV []) (str ''t'')\<rparr>
          \<lparr>SQL = [], Ver = V3, Root = TableScanOp
             (BaseOp (str ''TableScan_3'') OpTypeTableScan 1 TaskTypeTiKV []) (str ''u'')\<rparr>
          = Inr (reason, same)
        \<and> Compare
          \<lparr>SQL = [], Ver = V4, Root = TableScanOp
             (BaseOp (str ''TableScan_7'') OpTypeTableScan 9 TaskTypeTiKV []) (str ''t'')\<rparr>
          \<lparr>SQL = [], Ver = V4, Root = TableScanOp
             (BaseOp (str ''TableScan_8'') OpTypeTableScan 9 TaskTypeTiKV []) (str ''u'')\<rparr>
          = Inr (reason', same))"
proof -
  let ?pA = "\<lparr>SQL = str ''select 1'', Ver = V3,
      Root = HashJoinOp (BaseOp (str ''HashJoin_1'') OpTypeHashJoin 5 TaskTypeRoot
        [TableScanOp (BaseOp (str ''TableScan_2'') OpTypeTableScan 1 TaskTypeTiKV []) (str ''t''),
         IndexScanOp (BaseOp (str ''IndexScan_3'') OpTypeIndexScan 2 TaskTypeTiKV [])
           (str ''u'') (str ''idx'')]) JoinTypeInner\<rparr>"
  let ?pB = "\<lparr>SQL = str ''select 1'', Ver = V4,
      Root = HashJoinOp (BaseOp (str ''HashJoin_9'') OpTypeHashJoin 77 TaskTypeRoot
        [TableScanOp (BaseOp (str ''TableScan_8'') OpTypeTableScan 30 TaskTypeTiKV []) (str ''t''),
         IndexScanOp (BaseOp (str ''IndexScan_7'') OpTypeIndexScan 40 TaskTypeTiKV [])
           (str ''u'') (str ''idx'')]) JoinTypeSemi\<rparr>"
  let ?q1 = "\<lparr>SQL = [], Ver = V3, Root = TableScanOp
             (BaseOp (str ''TableScan_2'') OpTypeTableScan 1 TaskTypeTiKV []) (str ''t'')\<rparr>"
  let ?q2 = "\<lparr>SQL = [], Ver = V3, Root = TableScanOp
             (BaseOp (str ''TableScan_3'') OpTypeTableScan 1 TaskTypeTiKV []) (str ''u'')\<rparr>"
  let ?q1' = "\<lparr>SQL = [], Ver = V4, Root = TableScanOp
             (BaseOp (str ''TableScan_7'') OpTypeTableScan 9 TaskTypeTiKV []) (str ''t'')\<rparr>"
  let ?q2' = "\<lparr>SQL = [], Ver = V4, Root = TableScanOp
             (BaseOp (str ''TableScan_8'') OpTypeTableScan 9 TaskTypeTiKV []) (str ''u'')\<rparr>"
  have h1: "SQL ?pA = SQL ?pB \<and> well_formed (Root ?pA) \<and> well_formed (Root ?pB)
      \<and> alike (Root ?pA) (Root ?pB)"
    by (simp add: tree_eval)
  have h2: "SQL ?q1 = SQL ?q2 \<and> SQL ?q1' = SQL ?q2'
      \<and> well_formed (Root ?q1) \<and> well_formed (Root ?q2)
      \<and> well_formed (Root ?q1') \<and> well_formed (Root ?q2')
      \<and> alike (Root ?q1) (Root ?q1') \<and> alike (Root ?q2) (Root ?q2')"
    by (simp add: tree_eval)
  from Compare_alike[of ?pA ?pB, THEN conjunct1, THEN mp, OF h1]
  have c1: "Compare ?pA ?pB = Inr ([], True)" .
  from Compare_alike[of ?q1 ?q2 ?q1' ?q2', THEN conjunct2, THEN mp, OF h2]
  have c2: "\<exists>reason reason' same.
      Compare ?q1 ?q2 = Inr (reason, same) \<and> Compare ?q1' ?q2' = Inr (reason', same)" .
  from c1 c2 show ?thesis by (intro conjI)
qed

text \<open>
  The claim as first stated asks only that the two trees be alike. Two plans that are
  alike, and differ in identifiers and row estimates only, need not be compared at all:
  when their TableScan-typed operators are \<^verbatim>\<open>IndexScanOp\<close> structs the type assertion of
  \<open>compare\<close> fails, and when both roots are nil the first method call panics.
\<close>

theorem Compare_alike_counterexample:
  "alike
     (IndexScanOp (BaseOp (str ''TableScan_1'') OpTypeTableScan 1 TaskTypeTiKV [])
        (str ''t'') (str ''idx''))
     (IndexScanOp (BaseOp (str ''TableScan_2'') OpTypeTableScan 2 TaskTypeTiKV [])
        (str ''t'') (str ''idx''))
   \<and> Compare
       \<lparr>SQL = str ''select 1'', Ver = V4,
        Root = IndexScanOp (BaseOp (str ''TableScan_1'') OpTypeTableScan 1 TaskTypeTiKV [])
          (str ''t'') (str ''idx'')\<rparr>
       \<lparr>SQL = str ''select 1'', Ver = V4,
        Root = IndexScanOp (BaseOp (str ''TableScan_2'') OpTypeTableScan 2 TaskTypeTiKV [])
          (str ''t'') (str ''idx'')\<rparr>
     = Inl TypeAssertionFailed
   \<and> alike NilOperator NilOperator
   \<and> Compare \<lparr>SQL = str ''select 1'', Ver = V3, Root = NilOperator\<rparr>
       \<lparr>SQL = str ''select 1'', Ver = V4, Root = NilOperator\<rparr>
     = Inl NilDereference"
  by (simp add: Compare_def compare.simps compare_children.simps compare_switch_def tree_eval)

section \<open>Child discovery\<close>

text \<open>
  The anchor column that the first loop of \<open>findChildRowNo\<close> leaves in \<open>col\<close>: the offset
  of the first rune in \<open>A..Z\<close> when the field has one, and otherwise the offset of the last
  rune of the field (0 for the empty field). So the test \<^verbatim>\<open>col >= len(parent)\<close> holds for
  the empty field only, and a field without a capital letter is scanned for children at
  its last column.
\<close>

lemma findChildRowNo_col_first_upper:
  assumes "i < length parent" "65 \<le> parent ! i \<and> parent ! i \<le> 90"
    and "\<forall>j < i. \<not> (65 \<le> parent ! j \<and> parent ! j \<le> 90)"
    and "k \<le> i"
  shows "findChildRowNo_col parent k col = i"
  using assms(4)
proof (induction "i - k" arbitrary: k col)
  case 0
  then have "k = i" by simp
  with assms(1,2) show ?case
    by (subst findChildRowNo_col.simps) (simp add: Let_def)
next
  case (Suc n)
  then have "k < i" by simp
  with assms(1,3) have "k < length parent" "\<not> (65 \<le> parent ! k \<and> parent ! k \<le> 90)"
    by simp_all
  moreover have "findChildRowNo_col parent (Suc k) k = i"
    using Suc.hyps(2) \<open>k < i\<close> by (intro Suc.hyps(1)) simp_all
  ultimately show ?case
    by (subst findChildRowNo_col.simps) (auto simp: Let_def)
qed

lemma findChildRowNo_col_no_upper:
  assumes "\<forall>j < length parent. \<not> (65 \<le> parent ! j \<and> parent ! j \<le> 90)"
  shows "findChildRowNo_col parent k col = (if k < length parent then length parent - 1 else col)"
proof (induction "length parent - k" arbitrary: k col)
  case 0
  then show ?case by (subst findChildRowNo_col.simps) simp
next
  case (Suc n)
  then have k: "k < length parent" by simp
  with assms have "\<not> (65 \<le> parent ! k \<and> parent ! k \<le> 90)" by simp
  moreover have "findChildRowNo_col parent (Suc k) k
      = (if Suc k < length parent then length parent - 1 else k)"
    using Suc.hyps(2) by (intro Suc.hyps(1)) simp
  ultimately show ?case using k
    by (subst findChildRowNo_col.simps) (auto simp: Let_def)
qed

lemma findChildRowNo_leaf_only_if_empty:
  assumes "index rows parentRowNo = Inr row" "index row idColNo = Inr parent" "parent \<noteq> []"
    and "\<forall>j < length parent. \<not> (65 \<le> parent ! j \<and> parent ! j \<le> 90)"
  shows "findChildRowNo rows parentRowNo idColNo
    = findChildRowNo_rows rows idColNo (length parent - 1) (parentRowNo + 1) []"
proof -
  from assms(3) have "findChildRowNo_col parent 0 0 = length parent - 1"
    by (simp add: findChildRowNo_col_no_upper[OF assms(4)])
  moreover from assms(3) have "\<not> length parent - 1 \<ge> length parent"
    by (cases parent) simp_all
  ultimately show ?thesis
    using assms(1,2) by (simp add: findChildRowNo_def Let_def)
qed

text \<open>
  Where the parent's field has a capital letter, and the rows from the parent on have the
  identifier column and reach the anchor column, \<open>findChildRowNo\<close> returns the direct
  children of the specification, the anchor being the offset of the first rune in
  \<open>A..Z\<close>.
\<close>

lemma direct_children_Nil: "direct_children [] first = []"
  by (simp add: direct_children_def)

lemma direct_children_Cons:
  "direct_children (c # glyphs) first =
     (if c = 9500 \<or> c = 9492 then first # direct_children glyphs (Suc first)
      else if c \<noteq> 9474 then []
      else direct_children glyphs (Suc first))"
proof -
  have "[first ..< first + Suc (length glyphs)]
      = first # [Suc first ..< first + Suc (length glyphs)]"
    by (rule upt_conv_Cons) simp
  then have "[first ..< first + length (c # glyphs)]
      = first # [Suc first ..< Suc first + length glyphs]"
    by simp
  then show ?thesis by (simp add: direct_children_def del: upt_Suc)
qed

lemma findChildRowNo_rows_direct_children:
  assumes "0 \<le> idColNo"
    and "\<forall>k. i \<le> k \<and> k < length rows \<longrightarrow>
           nat idColNo < length (rows ! k) \<and> col < length (rows ! k ! nat idColNo)"
  shows "findChildRowNo_rows rows idColNo col (int i) childRowNo =
    Inr (childRowNo @ map int
      (direct_children (map (\<lambda>row. row ! nat idColNo ! col) (drop i rows)) i))"
  using assms(2)
proof (induction "length rows - i" arbitrary: i childRowNo)
  case 0
  then show ?case
    by (subst findChildRowNo_rows.simps) (simp add: direct_children_Nil)
next
  case (Suc n)
  then have i: "i < length rows" by simp
  with Suc.prems have ok: "nat idColNo < length (rows ! i)"
    "col < length (rows ! i ! nat idColNo)" by simp_all
  let ?c = "rows ! i ! nat idColNo ! col"
  have d: "drop i rows = rows ! i # drop (Suc i) rows"
    using i by (simp add: Cons_nth_drop_Suc)
  have rd: "index rows (int i) = Inr (rows ! i)"
    "index (rows ! i) idColNo = Inr (rows ! i ! nat idColNo)"
    "index (rows ! i ! nat idColNo) (int col) = Inr ?c"
    using i ok assms(1) by (simp_all add: index_def)
  have IH: "findChildRowNo_rows rows idColNo col (int (Suc i)) acc =
    Inr (acc @ map int
      (direct_children (map (\<lambda>row. row ! nat idColNo ! col) (drop (Suc i) rows)) (Suc i)))"
    for acc
    using Suc.hyps(2) Suc.prems by (intro Suc.hyps(1)) simp_all
  have step: "int i + 1 = int (Suc i)" by simp
  show ?case
    using i by (subst findChildRowNo_rows.simps)
      (simp add: rd d direct_children_Cons step IH del: of_nat_Suc)
qed

lemma findChildRowNo_direct_children:
  assumes "0 \<le> parentRowNo" "nat parentRowNo < length rows" "0 \<le> idColNo"
    and "\<forall>k. nat parentRowNo \<le> k \<and> k < length rows \<longrightarrow>
           nat idColNo < length (rows ! k) \<and> anchor < length (rows ! k ! nat idColNo)"
    and "65 \<le> rows ! nat parentRowNo ! nat idColNo ! anchor
         \<and> rows ! nat parentRowNo ! nat idColNo ! anchor \<le> 90"
    and "\<forall>j < anchor. \<not> (65 \<le> rows ! nat parentRowNo ! nat idColNo ! j
           \<and> rows ! nat parentRowNo ! nat idColNo ! j \<le> 90)"
  shows "findChildRowNo rows parentRowNo idColNo =
    Inr (map int (direct_children
      (map (\<lambda>row. row ! nat idColNo ! anchor) (drop (Suc (nat parentRowNo)) rows))
      (Suc (nat parentRowNo))))"
proof -
  let ?p = "nat parentRowNo"
  let ?parent = "rows ! ?p ! nat idColNo"
  from assms(2,4) have ok: "nat idColNo < length (rows ! ?p)" "anchor < length ?parent"
    by simp_all
  have rd: "index rows parentRowNo = Inr (rows ! ?p)"
    "index (rows ! ?p) idColNo = Inr ?parent"
    using assms(1,2,3) ok by (simp_all add: index_def)
  have col: "findChildRowNo_col ?parent 0 0 = anchor"
    using ok(2) assms(5,6) by (intro findChildRowNo_col_first_upper) simp_all
  have next_row: "parentRowNo + 1 = int (Suc ?p)" using assms(1) by simp
  have "findChildRowNo_rows rows idColNo anchor (int (Suc ?p)) [] =
    Inr ([] @ map int (direct_children
      (map (\<lambda>row. row ! nat idColNo ! anchor) (drop (Suc ?p) rows)) (Suc ?p)))"
    using assms(3,4) by (intro findChildRowNo_rows_direct_children) simp_all
  then show ?thesis
    using ok(2) by (simp add: findChildRowNo_def rd col next_row Let_def del: of_nat_Suc)
qed

text \<open>
  C1. The claim: the anchor column of the parent is the code-point offset of the first
  alphabetic character of its identifier field, and a parent whose field has no
  alphabetic character has no children, \<open>findChildRowNo\<close> returning none; below the
  parent, U+251C or U+2514 at the anchor column marks a direct child, U+2502 lets the
  scan go on and any other character ends it. The code departs from it where the field
  is not empty and has no letter: for the rows \<open>" 7"\<close> and \<open>" \<dots>TableScan_5"\<close>, the second
  starting with a blank, U+2514 and U+2500, the field of row 0 holds no letter, yet the
  anchor is column 1 and row 1, which has U+2514 there, is returned as a child.
\<close>

theorem findChildRowNo_no_letter:
  "list_all (\<lambda>c. \<not> (65 \<le> c \<and> c \<le> 90) \<and> \<not> (97 \<le> c \<and> c \<le> 122)) (str '' 7'')
   \<and> findChildRowNo_col (str '' 7'') 0 0 = 1
   \<and> findChildRowNo [[str '' 7''], [[32, 9492, 9472] @ str ''TableScan_5'']] 0 0 = Inr [1]"
  by (simp add: findChildRowNo_def index_def str_def findChildRowNo_col.simps
      findChildRowNo_rows.simps)

end
